theory Spec2Isabelle
  imports Main
begin

section \<open>JSON values and the Python operations the handlers apply to them\<close>

text \<open>
  The handlers of \<open>app.py\<close> receive parsed JSON: \<open>request.get_json()\<close> yields
  \<open>None\<close>, a bool, a number, a \<open>str\<close>, a \<open>list\<close> or a \<open>dict\<close>. Numbers are the
  integers here (Python's unbounded \<open>int\<close>). A \<open>dict\<close> is an association list read
  with \<open>map_of\<close>; a Python dict holds at most one binding per key.
\<close>

datatype json =
    JNull
  | JBool bool
  | JInt int
  | JStr string
  | JArr "json list"
  | JObj "(string \<times> json) list"

text \<open>Python truthiness, as tested by \<open>if not x\<close> and by \<open>x or y\<close>.\<close>

fun truthy :: "json \<Rightarrow> bool" where
  "truthy JNull = False"
| "truthy (JBool b) = b"
| "truthy (JInt n) = (n \<noteq> 0)"
| "truthy (JStr s) = (s \<noteq> [])"
| "truthy (JArr xs) = (xs \<noteq> [])"
| "truthy (JObj kvs) = (kvs \<noteq> [])"

text \<open>
  The error taxonomy of the responses. A handler's \<open>return jsonify({"error": ...}), 400\<close>
  for absent fields is \<open>ValidationError\<close>; 404 is \<open>NotFoundError\<close>; 401 is \<open>AuthError\<close>;
  the 400 of \<open>verify_email\<close> for a wrong code is \<open>MismatchError\<close>; an exception that
  leaves the handler (or that \<open>cancel_reservation\<close> and \<open>claim_pending\<close> catch) is the
  500 response \<open>InternalError\<close>.
\<close>

datatype error = ValidationError | NotFoundError | AuthError | MismatchError | InternalError

definition and_then :: "error + 'a \<Rightarrow> ('a \<Rightarrow> error + 'b) \<Rightarrow> error + 'b" where
  "and_then r f = (case r of Inl e \<Rightarrow> Inl e | Inr v \<Rightarrow> f v)"

text \<open>
  A step of a handler that may raise: the exception ends the handler as a 500 response
  and leaves the state \<open>s\<close> it was entered with; otherwise the handler goes on with
  the value.
\<close>

definition or_raise :: "error + 'a \<Rightarrow> 's \<Rightarrow> ('a \<Rightarrow> (error + 'b) \<times> 's) \<Rightarrow> (error + 'b) \<times> 's" where
  "or_raise r s f = (case r of Inl e \<Rightarrow> (Inl e, s) | Inr v \<Rightarrow> f v)"

text \<open>\<open>k in s\<close> for two strings is the substring test.\<close>

fun is_substring :: "string \<Rightarrow> string \<Rightarrow> bool" where
  "is_substring k [] = (k = [])"
| "is_substring k (c # cs) = (take (length k) (c # cs) = k \<or> is_substring k cs)"

text \<open>
  \<open>k in data\<close> for a string \<open>k\<close>: key membership in a dict, element membership in a
  list, the substring test in a string, and \<open>TypeError\<close> on \<open>None\<close>, a bool or a number.
\<close>

fun py_contains :: "string \<Rightarrow> json \<Rightarrow> error + bool" where
  "py_contains k (JObj kvs) = Inr (k \<in> fst ` set kvs)"
| "py_contains k (JArr xs) = Inr (JStr k \<in> set xs)"
| "py_contains k (JStr s) = Inr (is_substring k s)"
| "py_contains k JNull = Inl InternalError"
| "py_contains k (JBool b) = Inl InternalError"
| "py_contains k (JInt n) = Inl InternalError"

text \<open>\<open>any(k not in data for k in required)\<close>, evaluated left to right.\<close>

fun any_missing :: "string list \<Rightarrow> json \<Rightarrow> error + bool" where
  "any_missing [] data = Inr False"
| "any_missing (k # ks) data =
     (case py_contains k data of
        Inl e \<Rightarrow> Inl e
      | Inr True \<Rightarrow> any_missing ks data
      | Inr False \<Rightarrow> Inr True)"

text \<open>
  \<open>data.get(k, default)\<close>: only a dict has \<open>get\<close>; elsewhere it is \<open>AttributeError\<close>.
  \<open>data[k]\<close> with a string \<open>k\<close>: \<open>KeyError\<close> on a dict without the key, \<open>TypeError\<close> on
  everything else.
\<close>

fun py_get :: "json \<Rightarrow> string \<Rightarrow> json \<Rightarrow> error + json" where
  "py_get (JObj kvs) k dflt = Inr (case map_of kvs k of None \<Rightarrow> dflt | Some v \<Rightarrow> v)"
| "py_get data k dflt = Inl InternalError"

fun py_index :: "json \<Rightarrow> string \<Rightarrow> error + json" where
  "py_index (JObj kvs) k = (case map_of kvs k of None \<Rightarrow> Inl InternalError | Some v \<Rightarrow> Inr v)"
| "py_index data k = Inl InternalError"

section \<open>The PostgreSQL store\<close>

text \<open>
  The tables of \<open>init_pg\<close>. A \<open>DATE\<close> is an integer that grows with the calendar, a
  \<open>TIMESTAMP\<close> a natural number; a nullable column is an \<open>option\<close>. \<open>status\<close> and
  \<open>verified\<close> are nullable in the schema, but every statement of \<open>app.py\<close> that writes
  them writes a value (the default, a literal or \<open>False\<close>), so they carry no \<open>option\<close>.
\<close>

type_synonym date = int

record user =
  u_id :: int
  u_name :: "string option"
  u_email :: string
  u_password :: "string option"
  u_verified :: bool
  u_google_id :: "string option"

record email_code =
  c_id :: int
  c_email :: string
  c_code :: string
  c_created_at :: nat

record reservation =
  r_id :: int
  r_user_email :: string
  r_branch :: string
  r_date :: date
  r_tables :: "string list"
  r_guests :: int
  r_notes :: "string option"
  r_menu_items :: "string list option"
  r_status :: string
  r_created_at :: nat

text \<open>
  \<open>email_codes_id_seq\<close> and \<open>reservations_id_seq\<close> are the sequences behind
  \<open>id SERIAL\<close>: the last value handed out. The lists hold the rows in the order of
  their insertion. The database answers every statement: a connection that cannot
  be opened is no part of the model.
\<close>

record db =
  users :: "user list"
  email_codes :: "email_code list"
  reservations :: "reservation list"
  email_codes_id_seq :: int
  reservations_id_seq :: int

text \<open>
  What psycopg2 and PostgreSQL make of a query parameter is not in \<open>app.py\<close>: it is a
  parameter of the model. \<open>assign_*\<close> read a value that is not \<open>None\<close> as a value of
  the column it is inserted into, \<open>compare_*\<close> as a value compared with the column in a
  \<open>WHERE\<close> clause; \<open>None\<close> means that the statement fails (the driver cannot adapt the
  value, or the server rejects it for the column's type). \<open>date_str\<close> is \<open>str\<close> of a
  \<open>DATE\<close> read back.
\<close>

record pg =
  assign_text :: "json \<Rightarrow> string option"
  assign_date :: "json \<Rightarrow> date option"
  assign_text_array :: "json \<Rightarrow> string list option"
  assign_integer :: "json \<Rightarrow> int option"
  compare_text :: "json \<Rightarrow> string option"
  compare_date :: "json \<Rightarrow> date option"
  compare_integer :: "json \<Rightarrow> int option"
  date_str :: "date \<Rightarrow> string"

text \<open>
  A query parameter: Python's \<open>None\<close> is SQL \<open>NULL\<close>, any other value goes through the
  adapter. \<open>Inr None\<close> is \<open>NULL\<close>.
\<close>

definition sql_param :: "(json \<Rightarrow> 'a option) \<Rightarrow> json \<Rightarrow> error + 'a option" where
  "sql_param adapt v =
     (if v = JNull then Inr None
      else case adapt v of None \<Rightarrow> Inl InternalError | Some x \<Rightarrow> Inr (Some x))"

text \<open>
  \<open>INSERT INTO reservations (user_email, branch, date, tables, guests, notes, menu_items)
  VALUES (...) RETURNING id\<close>, followed by \<open>commit\<close>. A parameter that cannot be read
  for its column fails the statement before it runs. Otherwise the row is formed with
  the defaults \<open>nextval\<close>, \<open>'pending'\<close> and \<open>NOW()\<close>, and the \<open>NOT NULL\<close> constraints
  of the five required columns are checked on it: a violation raises, nothing is
  committed, and the sequence keeps the value it has handed out.
\<close>

definition insert_reservation ::
  "pg \<Rightarrow> nat \<Rightarrow> json \<Rightarrow> json \<Rightarrow> json \<Rightarrow> json \<Rightarrow> json \<Rightarrow> json \<Rightarrow> json \<Rightarrow> db \<Rightarrow> (error + int) \<times> db" where
  "insert_reservation a now user_email branch date tables guests notes menu_items s =
     or_raise (sql_param (assign_text a) user_email) s (\<lambda>c_user_email.
     or_raise (sql_param (assign_text a) branch) s (\<lambda>c_branch.
     or_raise (sql_param (assign_date a) date) s (\<lambda>c_date.
     or_raise (sql_param (assign_text_array a) tables) s (\<lambda>c_tables.
     or_raise (sql_param (assign_integer a) guests) s (\<lambda>c_guests.
     or_raise (sql_param (assign_text a) notes) s (\<lambda>c_notes.
     or_raise (sql_param (assign_text_array a) menu_items) s (\<lambda>c_menu_items.
       (let new_id = reservations_id_seq s + 1;
            s1 = s\<lparr>reservations_id_seq := new_id\<rparr>
        in case (c_user_email, c_branch, c_date, c_tables, c_guests) of
             (Some v_user_email, Some v_branch, Some v_date, Some v_tables, Some v_guests) \<Rightarrow>
               (Inr new_id,
                s1\<lparr>reservations := reservations s1 @
                  [\<lparr>r_id = new_id, r_user_email = v_user_email, r_branch = v_branch,
                    r_date = v_date, r_tables = v_tables, r_guests = v_guests,
                    r_notes = c_notes, r_menu_items = c_menu_items,
                    r_status = ''pending'', r_created_at = now\<rparr>]\<rparr>)
           | _ \<Rightarrow> (Inl InternalError, s1)))))))))"

text \<open>
  \<open>UPDATE reservations SET status = ... WHERE id = ... RETURNING id\<close>: \<open>set_status\<close>
  is the statement on one row, \<open>update_status\<close> gives whether a row was returned and
  the rows after the update.
\<close>

definition set_status :: "int \<Rightarrow> string \<Rightarrow> reservation \<Rightarrow> reservation" where
  "set_status n st r = (if r_id r = n then r\<lparr>r_status := st\<rparr> else r)"

definition update_status :: "int \<Rightarrow> string \<Rightarrow> db \<Rightarrow> bool \<times> db" where
  "update_status n st s =
     (list_ex (\<lambda>r. r_id r = n) (reservations s),
      s\<lparr>reservations := map (set_status n st) (reservations s)\<rparr>)"

section \<open>The session\<close>

text \<open>The two keys of the Flask session that the handlers use; \<open>None\<close> is an absent
  key, and \<open>session.get\<close> reads an absent key as Python's \<open>None\<close>.\<close>

record session =
  sess_user :: "json option"
  sess_pending_booking :: "json option"

definition session_get :: "json option \<Rightarrow> json" where
  "session_get v = (case v of None \<Rightarrow> JNull | Some x \<Rightarrow> x)"

section \<open>The handlers\<close>

text \<open>\<open>POST /reservation\<close>. \<open>data\<close> is the parsed body, \<open>now\<close> the server's clock.\<close>

definition create_reservation :: "pg \<Rightarrow> nat \<Rightarrow> json \<Rightarrow> db \<Rightarrow> (error + int) \<times> db" where
  "create_reservation a now data s =
     or_raise (any_missing [''user_email'', ''branch'', ''date'', ''tables'', ''guests''] data) s
       (\<lambda>missing.
     if missing then (Inl ValidationError, s)
     else
       or_raise (py_index data ''user_email'') s (\<lambda>user_email.
       or_raise (py_index data ''branch'') s (\<lambda>branch.
       or_raise (py_index data ''date'') s (\<lambda>date.
       or_raise (py_index data ''tables'') s (\<lambda>tables.
       or_raise (py_index data ''guests'') s (\<lambda>guests.
       or_raise (py_get data ''notes'' (JStr [])) s (\<lambda>notes.
       or_raise (py_get data ''menu_items'' (JArr [])) s (\<lambda>menu_items.
         insert_reservation a now user_email branch date tables guests notes menu_items s))))))))"

text \<open>
  \<open>GET /user/bookings\<close>: the rows of the session user's email, \<open>ORDER BY date DESC\<close>
  (SQL leaves the order among equal dates open; here it is the order of insertion).
\<close>

record booking =
  b_id :: int
  b_date :: string
  b_branch :: string
  b_persons :: int
  b_menu :: "string list option"
  b_status :: string

definition booking_of :: "pg \<Rightarrow> reservation \<Rightarrow> booking" where
  "booking_of a r =
     \<lparr>b_id = r_id r, b_date = date_str a (r_date r), b_branch = r_branch r,
      b_persons = r_guests r, b_menu = r_menu_items r, b_status = r_status r\<rparr>"

definition user_bookings :: "pg \<Rightarrow> session \<Rightarrow> db \<Rightarrow> error + booking list" where
  "user_bookings a sess s =
     (let user = session_get (sess_user sess) in
      if \<not> truthy user then Inl AuthError
      else and_then (py_index user ''email'') (\<lambda>email.
           and_then (sql_param (compare_text a) email) (\<lambda>c_email.
           Inr (map (booking_of a)
                  (sort_key (\<lambda>r. - r_date r)
                     (filter (\<lambda>r. c_email = Some (r_user_email r)) (reservations s)))))))"

text \<open>
  \<open>GET /occupied\<close>: \<open>request.args.get\<close> gives a string or \<open>None\<close>. The tables of the
  rows \<open>WHERE branch = %s AND date = %s AND status != 'cancelled'\<close>, one row after the
  other (\<open>occupied.extend(row[0])\<close>).
\<close>

definition get_occupied :: "pg \<Rightarrow> string option \<Rightarrow> string option \<Rightarrow> db \<Rightarrow> error + string list" where
  "get_occupied a branch date s =
     (case (branch, date) of
        (Some b, Some d) \<Rightarrow>
          (if b = [] \<or> d = [] then Inl ValidationError
           else and_then (sql_param (compare_text a) (JStr b)) (\<lambda>c_branch.
                and_then (sql_param (compare_date a) (JStr d)) (\<lambda>c_date.
                Inr (concat (map r_tables
                       (filter (\<lambda>r. c_branch = Some (r_branch r) \<and> c_date = Some (r_date r)
                                     \<and> r_status r \<noteq> ''cancelled'')
                          (reservations s)))))))
      | _ \<Rightarrow> Inl ValidationError)"

text \<open>\<open>POST /pending\<close>: the draft is stored in the session as it came, over any
  earlier one.\<close>

definition save_pending :: "json \<Rightarrow> session \<Rightarrow> (error + unit) \<times> session" where
  "save_pending data sess =
     (if \<not> truthy data then (Inl ValidationError, sess)
      else (Inr (), sess\<lparr>sess_pending_booking := Some data\<rparr>))"

text \<open>
  \<open>POST /pending/claim\<close>. \<open>raw_body\<close> is \<open>request.get_json(silent=True)\<close>, which is
  \<open>None\<close> when there is no JSON body. The two 200 responses are \<open>NoPending\<close> (the
  message that nothing is staged) and \<open>Created\<close> with the new identifier. Only the
  \<open>INSERT\<close> is inside \<open>try\<close>; the \<open>pop\<close> of the staged draft follows it.
\<close>

datatype claimed = NoPending | Created int

definition claim_insert ::
  "pg \<Rightarrow> nat \<Rightarrow> json \<Rightarrow> json \<Rightarrow> json \<Rightarrow> json \<Rightarrow> json \<Rightarrow> json \<Rightarrow> json \<Rightarrow> session \<Rightarrow> db
     \<Rightarrow> (error + claimed) \<times> session \<times> db" where
  "claim_insert a now user_email branch date tables guests notes menu_items sess s =
     (case insert_reservation a now user_email branch date tables guests notes menu_items s of
        (Inl e, s') \<Rightarrow> (Inl InternalError, sess, s')
      | (Inr res_id, s') \<Rightarrow> (Inr (Created res_id), sess\<lparr>sess_pending_booking := None\<rparr>, s'))"

definition claim_pending ::
  "pg \<Rightarrow> nat \<Rightarrow> json \<Rightarrow> session \<Rightarrow> db \<Rightarrow> (error + claimed) \<times> session \<times> db" where
  "claim_pending a now raw_body sess s =
     (let user = session_get (sess_user sess) in
      if \<not> truthy user then (Inl AuthError, sess, s)
      else
        (let body = (if truthy raw_body then raw_body else JObj []) in
         or_raise (py_get body ''pending'' JNull) (sess, s) (\<lambda>supplied.
        (let pending = (if truthy supplied then supplied
                        else session_get (sess_pending_booking sess)) in
         if \<not> truthy pending then (Inr NoPending, sess, s)
         else
           or_raise (any_missing [''branch'', ''date'', ''tables'', ''guests''] pending) (sess, s)
             (\<lambda>missing.
           if missing then (Inl ValidationError, sess, s)
           else
             or_raise (py_get user ''email'' JNull) (sess, s) (\<lambda>user_email.
             or_raise (py_index pending ''branch'') (sess, s) (\<lambda>branch.
             or_raise (py_index pending ''date'') (sess, s) (\<lambda>date.
             or_raise (py_index pending ''tables'') (sess, s) (\<lambda>tables.
             or_raise (py_index pending ''guests'') (sess, s) (\<lambda>guests.
             or_raise (py_get pending ''notes'' (JStr [])) (sess, s) (\<lambda>notes.
             or_raise (py_get pending ''menu_items'' (JArr [])) (sess, s) (\<lambda>menu_items.
               claim_insert a now user_email branch date tables guests notes menu_items
                 sess s))))))))))))"

text \<open>
  \<open>POST /reservation/confirm\<close> and \<open>POST /reservation/cancel\<close>. Both run the \<open>UPDATE\<close>
  with no look at the status the row has, and answer 404 when no row came back. The
  successful confirm echoes the identifier it was given. \<open>cancel_reservation\<close> answers
  400 to a body that is not JSON and turns every exception into a 500 response.
\<close>

definition confirm_reservation :: "pg \<Rightarrow> json \<Rightarrow> db \<Rightarrow> (error + json) \<times> db" where
  "confirm_reservation a data s =
     or_raise (py_get data ''reservation_id'' JNull) s (\<lambda>res_id.
     if \<not> truthy res_id then (Inl ValidationError, s)
     else
       or_raise (sql_param (compare_integer a) res_id) s (\<lambda>c_id.
         (case c_id of
            None \<Rightarrow> (Inl NotFoundError, s)
          | Some n \<Rightarrow>
              (let (row, s') = update_status n ''confirmed'' s
               in if \<not> row then (Inl NotFoundError, s') else (Inr res_id, s')))))"

definition cancel_reservation :: "pg \<Rightarrow> json \<Rightarrow> db \<Rightarrow> (error + unit) \<times> db" where
  "cancel_reservation a data s =
     (if data = JNull then (Inl ValidationError, s)
      else
        or_raise (py_get data ''id'' JNull) s (\<lambda>res_id.
        if \<not> truthy res_id then (Inl ValidationError, s)
        else
          or_raise (sql_param (compare_integer a) res_id) s (\<lambda>c_id.
            (case c_id of
               None \<Rightarrow> (Inl NotFoundError, s)
             | Some n \<Rightarrow>
                 (let (row, s') = update_status n ''cancelled'' s
                  in if \<not> row then (Inl NotFoundError, s') else (Inr (), s'))))))"

text \<open>
  \<open>generate_email_code\<close> and \<open>POST /register/email\<close>. \<open>draw\<close> is the value of
  \<open>random.randint(100000, 999999)\<close> and \<open>str_nat\<close> is \<open>str\<close> on it; \<open>delivered\<close> is
  what \<open>send_email_code\<close> returns. The code is stored before the mail is sent, and a
  mail that fails leaves it stored.
\<close>

definition digit_char :: "int \<Rightarrow> char" where
  "digit_char n = ''0123456789'' ! nat (n mod 10)"

function str_nat :: "nat \<Rightarrow> string" where
  "str_nat n =
     (if n < 10 then [digit_char (int n)]
      else str_nat (n div 10) @ [digit_char (int (n mod 10))])"
  by pat_completeness auto
termination
  by (relation "measure id") auto

declare str_nat.simps [simp del]

definition insert_email_code :: "pg \<Rightarrow> nat \<Rightarrow> json \<Rightarrow> json \<Rightarrow> db \<Rightarrow> (error + unit) \<times> db" where
  "insert_email_code a now email code s =
     or_raise (sql_param (assign_text a) email) s (\<lambda>c_email.
     or_raise (sql_param (assign_text a) code) s (\<lambda>c_code.
       (let new_id = email_codes_id_seq s + 1;
            s1 = s\<lparr>email_codes_id_seq := new_id\<rparr>
        in case (c_email, c_code) of
             (Some v_email, Some v_code) \<Rightarrow>
               (Inr (),
                s1\<lparr>email_codes := email_codes s1 @
                  [\<lparr>c_id = new_id, c_email = v_email, c_code = v_code,
                    c_created_at = now\<rparr>]\<rparr>)
           | _ \<Rightarrow> (Inl InternalError, s1))))"

definition generate_email_code :: "pg \<Rightarrow> nat \<Rightarrow> nat \<Rightarrow> json \<Rightarrow> db \<Rightarrow> (error + string) \<times> db" where
  "generate_email_code a now draw email s =
     (let code = str_nat draw in
      case insert_email_code a now email (JStr code) s of
        (Inl e, s') \<Rightarrow> (Inl e, s')
      | (Inr u, s') \<Rightarrow> (Inr code, s'))"

definition register_email :: "pg \<Rightarrow> nat \<Rightarrow> nat \<Rightarrow> bool \<Rightarrow> json \<Rightarrow> db \<Rightarrow> (error + unit) \<times> db" where
  "register_email a now draw delivered data s =
     (if \<not> truthy data then (Inl ValidationError, s)
      else
        or_raise (py_get data ''email'' JNull) s (\<lambda>email.
        if \<not> truthy email then (Inl ValidationError, s)
        else
          (case generate_email_code a now draw email s of
             (Inl e, s') \<Rightarrow> (Inl e, s')
           | (Inr code, s') \<Rightarrow>
               (if \<not> delivered then (Inl InternalError, s') else (Inr (), s')))))"

text \<open>
  \<open>POST /verify-email\<close>. \<open>SELECT code FROM email_codes WHERE email=%s ORDER BY id DESC
  LIMIT 1\<close> is the first row of the matching ones sorted by falling \<open>id\<close>; the stored
  code is a \<open>str\<close>, and \<open>record[0] != code\<close> compares it with the JSON value that was
  sent. No column but \<open>email\<close>, \<open>id\<close> and \<open>code\<close> is read. \<open>UPDATE users SET
  verified=True WHERE email=%s\<close> is \<open>mark_verified\<close> on each row.
\<close>

definition latest_code :: "string \<Rightarrow> email_code list \<Rightarrow> string option" where
  "latest_code e codes =
     (case sort_key (\<lambda>c. - c_id c) (filter (\<lambda>c. c_email c = e) codes) of
        [] \<Rightarrow> None
      | c # cs \<Rightarrow> Some (c_code c))"

definition mark_verified :: "string \<Rightarrow> user \<Rightarrow> user" where
  "mark_verified e u = (if u_email u = e then u\<lparr>u_verified := True\<rparr> else u)"

definition set_verified :: "string \<Rightarrow> db \<Rightarrow> db" where
  "set_verified e s = s\<lparr>users := map (mark_verified e) (users s)\<rparr>"

definition verify_email :: "pg \<Rightarrow> json \<Rightarrow> db \<Rightarrow> (error + unit) \<times> db" where
  "verify_email a data s =
     (if \<not> truthy data then (Inl ValidationError, s)
      else
        or_raise (py_get data ''email'' JNull) s (\<lambda>email.
        or_raise (py_get data ''code'' JNull) s (\<lambda>code.
        if \<not> truthy email \<or> \<not> truthy code then (Inl ValidationError, s)
        else
          or_raise (sql_param (compare_text a) email) s (\<lambda>c_email.
            (case c_email of
               None \<Rightarrow> (Inl NotFoundError, s)
             | Some e \<Rightarrow>
                 (case latest_code e (email_codes s) of
                    None \<Rightarrow> (Inl NotFoundError, s)
                  | Some stored \<Rightarrow>
                      (if JStr stored \<noteq> code then (Inl MismatchError, s)
                       else (Inr (), set_verified e s))))))))"

section \<open>An adapter and states for the examples\<close>

text \<open>
  \<open>typed_pg\<close> reads each value of the kind of its column and fails on every other
  one: a \<open>str\<close> for \<open>TEXT\<close>, a list of \<open>str\<close> for \<open>TEXT[]\<close>, an \<open>int\<close> of four
  bytes for \<open>INTEGER\<close>, a \<open>str\<close> of the form \<open>YYYY-MM-DD\<close> for \<open>DATE\<close> (kept as the
  number \<open>YYYYMMDD\<close>). It is the adapter of the examples; the theorems hold for all.
\<close>

definition digit_of :: "char \<Rightarrow> int option" where
  "digit_of c =
     (let n = (of_char c :: nat) in if 48 \<le> n \<and> n \<le> 57 then Some (int n - 48) else None)"

fun digits_value :: "int \<Rightarrow> string \<Rightarrow> int option" where
  "digits_value acc [] = Some acc"
| "digits_value acc (c # cs) =
     (case digit_of c of None \<Rightarrow> None | Some d \<Rightarrow> digits_value (10 * acc + d) cs)"

definition iso_date :: "string \<Rightarrow> date option" where
  "iso_date s =
     (if length s = 10 \<and> s ! 4 = CHR ''-'' \<and> s ! 7 = CHR ''-'' then
        (case (digits_value 0 (take 4 s), digits_value 0 (take 2 (drop 5 s)),
               digits_value 0 (drop 8 s)) of
           (Some y, Some m, Some d) \<Rightarrow>
             if 1 \<le> m \<and> m \<le> 12 \<and> 1 \<le> d \<and> d \<le> 31 then Some (y * 10000 + m * 100 + d)
             else None
         | _ \<Rightarrow> None)
      else None)"

fun strings_of :: "json list \<Rightarrow> string list option" where
  "strings_of [] = Some []"
| "strings_of (JStr x # xs) = map_option ((#) x) (strings_of xs)"
| "strings_of (v # xs) = None"

definition iso_str :: "date \<Rightarrow> string" where
  "iso_str d =
     [digit_char (d div 10000000), digit_char (d div 1000000), digit_char (d div 100000),
      digit_char (d div 10000), CHR ''-'', digit_char (d div 1000), digit_char (d div 100),
      CHR ''-'', digit_char (d div 10), digit_char d]"

definition typed_text :: "json \<Rightarrow> string option" where
  "typed_text v = (case v of JStr x \<Rightarrow> Some x | _ \<Rightarrow> None)"

definition typed_date :: "json \<Rightarrow> date option" where
  "typed_date v = (case v of JStr x \<Rightarrow> iso_date x | _ \<Rightarrow> None)"

definition typed_text_array :: "json \<Rightarrow> string list option" where
  "typed_text_array v = (case v of JArr xs \<Rightarrow> strings_of xs | _ \<Rightarrow> None)"

definition typed_pg :: pg where
  "typed_pg =
     \<lparr>assign_text = typed_text,
      assign_date = typed_date,
      assign_text_array = typed_text_array,
      assign_integer = (\<lambda>v. case v of
         JInt n \<Rightarrow> if - 2147483648 \<le> n \<and> n \<le> 2147483647 then Some n else None
       | _ \<Rightarrow> None),
      compare_text = typed_text,
      compare_date = typed_date,
      compare_integer = (\<lambda>v. case v of JInt n \<Rightarrow> Some n | _ \<Rightarrow> None),
      date_str = iso_str\<rparr>"

text \<open>The empty store, and the request and the session of the scenarios.\<close>

definition empty_db :: db where
  "empty_db =
     \<lparr>users = [], email_codes = [], reservations = [],
      email_codes_id_seq = 0, reservations_id_seq = 0\<rparr>"

definition request_1 :: json where
  "request_1 =
     JObj [(''user_email'', JStr ''a@x.com''), (''branch'', JStr ''B1''),
           (''date'', JStr ''2024-01-01''), (''tables'', JArr [JStr ''T1'']),
           (''guests'', JInt 2)]"

definition session_a :: session where
  "session_a =
     \<lparr>sess_user = Some (JObj [(''id'', JInt 1), (''name'', JStr ''A''),
                              (''email'', JStr ''a@x.com'')]),
      sess_pending_booking = None\<rparr>"

definition request_null_email :: json where
  "request_null_email =
     JObj [(''user_email'', JNull), (''branch'', JStr ''B1''),
           (''date'', JStr ''2024-01-01''), (''tables'', JArr [JStr ''T1'']),
           (''guests'', JInt 2)]"

text \<open>A store with a pending, a confirmed and a cancelled reservation of one branch
  and day, on three tables.\<close>

definition booked :: "int \<Rightarrow> string \<Rightarrow> string \<Rightarrow> reservation" where
  "booked n t st =
     \<lparr>r_id = n, r_user_email = ''a@x.com'', r_branch = ''B1'', r_date = 20240101,
      r_tables = [t], r_guests = 2, r_notes = Some [], r_menu_items = Some [],
      r_status = st, r_created_at = 7\<rparr>"

definition db_three :: db where
  "db_three =
     \<lparr>users = [], email_codes = [],
      reservations = [booked 1 ''T1'' ''pending'', booked 2 ''T2'' ''confirmed'',
                      booked 3 ''T3'' ''cancelled''],
      email_codes_id_seq = 0, reservations_id_seq = 3\<rparr>"

text \<open>A store with one account that is not verified and two codes issued for its
  email, \<open>111111\<close> first and \<open>222222\<close> after it.\<close>

definition db_codes :: db where
  "db_codes =
     \<lparr>users = [\<lparr>u_id = 1, u_name = Some ''A'', u_email = ''a@x.com'',
                 u_password = Some ''hash'', u_verified = False, u_google_id = None\<rparr>],
      email_codes = [\<lparr>c_id = 1, c_email = ''a@x.com'', c_code = ''111111'', c_created_at = 1\<rparr>,
                     \<lparr>c_id = 2, c_email = ''a@x.com'', c_code = ''222222'', c_created_at = 2\<rparr>],
      reservations = [], email_codes_id_seq = 2, reservations_id_seq = 0\<rparr>"

definition verify_request :: "string \<Rightarrow> string \<Rightarrow> (string \<times> json) list" where
  "verify_request email code = [(''email'', JStr email), (''code'', JStr code)]"

text \<open>Sessions of the user \<open>a@x.com\<close> with a staged draft: a complete one, and one
  that has a branch and nothing else.\<close>

definition draft_1 :: json where
  "draft_1 =
     JObj [(''branch'', JStr ''B1''), (''date'', JStr ''2024-01-01''),
           (''tables'', JArr [JStr ''T1'']), (''guests'', JInt 2)]"

definition draft_branch_only :: json where
  "draft_branch_only = JObj [(''branch'', JStr ''B1'')]"

definition session_staged :: "json \<Rightarrow> session" where
  "session_staged draft = session_a\<lparr>sess_pending_booking := Some draft\<rparr>"


section \<open>The Python operations on a dict, and the statements of the store\<close>

lemma any_missing_dict:
  "any_missing ks (JObj kvs) = Inr (\<exists>k \<in> set ks. map_of kvs k = None)"
  by (induction ks) (auto simp: map_of_eq_None_iff split: bool.splits)

lemma or_raise_Inr: "or_raise (Inr v) s f = f v"
  by (simp add: or_raise_def)

lemma and_then_Inr: "and_then (Inr v) f = f v"
  by (simp add: and_then_def)

lemma insert_reservation_stored:
  assumes "sql_param (assign_text a) user_email = Inr (Some e)"
    and "sql_param (assign_text a) branch = Inr (Some b)"
    and "sql_param (assign_date a) date = Inr (Some d)"
    and "sql_param (assign_text_array a) tables = Inr (Some ts)"
    and "sql_param (assign_integer a) guests = Inr (Some g)"
    and "sql_param (assign_text a) notes = Inr n"
    and "sql_param (assign_text_array a) menu_items = Inr m"
  shows "insert_reservation a now user_email branch date tables guests notes menu_items s =
     (Inr (reservations_id_seq s + 1),
      s\<lparr>reservations_id_seq := reservations_id_seq s + 1,
        reservations := reservations s @
          [\<lparr>r_id = reservations_id_seq s + 1, r_user_email = e, r_branch = b, r_date = d,
            r_tables = ts, r_guests = g, r_notes = n, r_menu_items = m,
            r_status = ''pending'', r_created_at = now\<rparr>]\<rparr>)"
  using assms by (simp add: insert_reservation_def or_raise_Inr Let_def)

lemma create_reservation_dict:
  assumes "map_of kvs ''user_email'' = Some user_email"
    and "map_of kvs ''branch'' = Some branch"
    and "map_of kvs ''date'' = Some date"
    and "map_of kvs ''tables'' = Some tables"
    and "map_of kvs ''guests'' = Some guests"
  shows "create_reservation a now (JObj kvs) s =
     insert_reservation a now user_email branch date tables guests
       (case map_of kvs ''notes'' of None \<Rightarrow> JStr [] | Some v \<Rightarrow> v)
       (case map_of kvs ''menu_items'' of None \<Rightarrow> JArr [] | Some v \<Rightarrow> v) s"
  using assms by (simp add: create_reservation_def any_missing_dict or_raise_Inr)

lemma create_reservation_missing:
  assumes "k \<in> {''user_email'', ''branch'', ''date'', ''tables'', ''guests''}"
    and "map_of kvs k = None"
  shows "create_reservation a now (JObj kvs) s = (Inl ValidationError, s)"
proof -
  have "any_missing [''user_email'', ''branch'', ''date'', ''tables'', ''guests''] (JObj kvs) = Inr True"
    unfolding any_missing_dict using assms by auto
  then show ?thesis
    by (simp add: create_reservation_def or_raise_Inr)
qed


lemma user_bookings_owner:
  assumes "sess_user sess = Some (JObj u)" and "u \<noteq> []"
    and "map_of u ''email'' = Some email"
    and "sql_param (compare_text a) email = Inr (Some e)"
  shows "user_bookings a sess s =
     Inr (map (booking_of a)
            (sort_key (\<lambda>r. - r_date r) (filter (\<lambda>r. r_user_email r = e) (reservations s))))"
proof -
  have "filter (\<lambda>r. e = r_user_email r) rows = filter (\<lambda>r. r_user_email r = e) rows"
    for rows :: "reservation list"
    by (rule filter_cong) auto
  with assms show ?thesis
    by (simp add: user_bookings_def session_get_def and_then_Inr)
qed

lemma get_occupied_given:
  assumes "b \<noteq> []" and "d \<noteq> []"
    and "sql_param (compare_text a) (JStr b) = Inr (Some b')"
    and "sql_param (compare_date a) (JStr d) = Inr (Some d')"
  shows "get_occupied a (Some b) (Some d) s =
     Inr (concat (map r_tables
            (filter (\<lambda>r. r_branch r = b' \<and> r_date r = d' \<and> r_status r \<noteq> ''cancelled'')
               (reservations s))))"
proof -
  have "filter (\<lambda>r. b' = r_branch r \<and> d' = r_date r \<and> r_status r \<noteq> ''cancelled'') rows
      = filter (\<lambda>r. r_branch r = b' \<and> r_date r = d' \<and> r_status r \<noteq> ''cancelled'') rows"
    for rows :: "reservation list"
    by (rule filter_cong) auto
  with assms show ?thesis
    by (simp add: get_occupied_def and_then_Inr)
qed

lemma set_status_twice: "set_status n st (set_status n st r) = set_status n st r"
  by (simp add: set_status_def)

lemma set_status_id: "r_id (set_status n st r) = r_id r"
  by (simp add: set_status_def)

lemma set_status_selected: "r_id r = n \<Longrightarrow> r_status (set_status n st r) = st"
  by (simp add: set_status_def)


lemma ids_map_set_status:
  "r_id ` set (map (set_status n st) rows) = r_id ` set rows"
proof -
  have "map r_id (map (set_status n st) rows) = map r_id rows"
    by (simp add: set_status_id)
  then have "set (map r_id (map (set_status n st) rows)) = set (map r_id rows)"
    by (rule arg_cong)
  then show ?thesis
    by (simp only: set_map)
qed

lemma update_status_eq:
  "update_status n st s =
     (n \<in> r_id ` set (reservations s), s\<lparr>reservations := map (set_status n st) (reservations s)\<rparr>)"
  unfolding update_status_def by (auto simp: list_ex_iff)

lemma confirm_reservation_dict:
  assumes "map_of kvs ''reservation_id'' = Some res_id" and "truthy res_id"
    and "sql_param (compare_integer a) res_id = Inr (Some n)"
  shows "confirm_reservation a (JObj kvs) s =
     (if n \<in> r_id ` set (reservations s)
      then (Inr res_id, s\<lparr>reservations := map (set_status n ''confirmed'') (reservations s)\<rparr>)
      else (Inl NotFoundError, s\<lparr>reservations := map (set_status n ''confirmed'') (reservations s)\<rparr>))"
  using assms by (simp add: confirm_reservation_def or_raise_Inr update_status_eq)

lemma cancel_reservation_dict:
  assumes "map_of kvs ''id'' = Some res_id" and "truthy res_id"
    and "sql_param (compare_integer a) res_id = Inr (Some n)"
  shows "cancel_reservation a (JObj kvs) s =
     (if n \<in> r_id ` set (reservations s)
      then (Inr (), s\<lparr>reservations := map (set_status n ''cancelled'') (reservations s)\<rparr>)
      else (Inl NotFoundError, s\<lparr>reservations := map (set_status n ''cancelled'') (reservations s)\<rparr>))"
  using assms by (simp add: cancel_reservation_def or_raise_Inr update_status_eq)

lemma sort_key_first_least:
  assumes "sort_key f xs = y # ys"
  shows "y \<in> set xs \<and> (\<forall>x \<in> set xs. f y \<le> f x)"
proof -
  have "set (y # ys) = set xs"
    using assms set_sort [of f xs] by simp
  moreover have "sorted (map f (y # ys))"
    using assms sorted_sort_key [of f xs] by simp
  ultimately show ?thesis
    by auto
qed

lemma latest_code_none:
  "latest_code e codes = None \<longleftrightarrow> (\<forall>c \<in> set codes. c_email c \<noteq> e)"
proof -
  have "sort_key (\<lambda>c. - c_id c) (filter (\<lambda>c. c_email c = e) codes) = []
      \<longleftrightarrow> filter (\<lambda>c. c_email c = e) codes = []"
    using length_sort [of "\<lambda>c. - c_id c" "filter (\<lambda>c. c_email c = e) codes"]
    by (metis length_0_conv)
  then show ?thesis
    by (auto simp: latest_code_def filter_empty_conv split: list.splits)
qed

lemma latest_code_most_recent:
  assumes "c \<in> set codes" and "c_email c = e"
    and "\<forall>c' \<in> set codes. c_email c' = e \<and> c' \<noteq> c \<longrightarrow> c_id c' < c_id c"
  shows "latest_code e codes = Some (c_code c)"
proof -
  let ?xs = "filter (\<lambda>c. c_email c = e) codes"
  have "c \<in> set ?xs"
    using assms by simp
  then have "sort_key (\<lambda>c. - c_id c) ?xs \<noteq> []"
    using set_sort [of "\<lambda>c. - c_id c" ?xs] by force
  then obtain y ys where sorted: "sort_key (\<lambda>c. - c_id c) ?xs = y # ys"
    by (cases "sort_key (\<lambda>c. - c_id c) ?xs") auto
  from sort_key_first_least [OF this]
  have y: "y \<in> set ?xs" and least: "\<forall>x \<in> set ?xs. - c_id y \<le> - c_id x"
    by auto
  have "c_id c \<le> c_id y"
    using least \<open>c \<in> set ?xs\<close> by auto
  moreover have "y \<noteq> c \<Longrightarrow> c_id y < c_id c"
    using assms(3) y by auto
  ultimately have "y = c"
    by force
  then show ?thesis
    by (simp add: latest_code_def sorted)
qed

lemma insort_key_map:
  "insort_key k (g x) (map g xs) = map g (insort_key (\<lambda>x. k (g x)) x xs)"
  by (induction xs) auto

lemma sort_key_map:
  "sort_key k (map g xs) = map g (sort_key (\<lambda>x. k (g x)) xs)"
  by (induction xs) (auto simp: insort_key_map)

lemma latest_code_created_at:
  "latest_code e (map (\<lambda>c. c\<lparr>c_created_at := t c\<rparr>) codes) = latest_code e codes"
proof -
  have "filter (\<lambda>c. c_email c = e) (map (\<lambda>c. c\<lparr>c_created_at := t c\<rparr>) codes)
      = map (\<lambda>c. c\<lparr>c_created_at := t c\<rparr>) (filter (\<lambda>c. c_email c = e) codes)"
    by (induction codes) auto
  then show ?thesis
    by (simp add: latest_code_def sort_key_map split: list.splits)
qed

lemma verify_email_dict:
  assumes "map_of kvs ''email'' = Some email" and "map_of kvs ''code'' = Some code"
    and "truthy email" and "truthy code"
    and "sql_param (compare_text a) email = Inr (Some e)"
  shows "verify_email a (JObj kvs) s =
     (case latest_code e (email_codes s) of
        None \<Rightarrow> (Inl NotFoundError, s)
      | Some stored \<Rightarrow> if JStr stored \<noteq> code then (Inl MismatchError, s)
                       else (Inr (), set_verified e s))"
proof -
  have "kvs \<noteq> []"
    using assms(1) by auto
  with assms show ?thesis
    by (simp add: verify_email_def or_raise_Inr)
qed

lemma verify_email_not_found:
  assumes "map_of kvs ''email'' = Some email" and "map_of kvs ''code'' = Some code"
    and "truthy email" and "truthy code"
    and "sql_param (compare_text a) email = Inr (Some e)"
    and "\<forall>c \<in> set (email_codes s). c_email c \<noteq> e"
  shows "verify_email a (JObj kvs) s = (Inl NotFoundError, s)"
proof -
  have "latest_code e (email_codes s) = None"
    using assms(6) by (simp only: latest_code_none)
  then show ?thesis
    by (simp add: verify_email_dict [OF assms(1-5)])
qed

lemma verify_email_latest:
  assumes "map_of kvs ''email'' = Some email" and "map_of kvs ''code'' = Some code"
    and "truthy email" and "truthy code"
    and "sql_param (compare_text a) email = Inr (Some e)"
    and "c \<in> set (email_codes s)" and "c_email c = e"
    and "\<forall>c' \<in> set (email_codes s). c_email c' = e \<and> c' \<noteq> c \<longrightarrow> c_id c' < c_id c"
  shows "verify_email a (JObj kvs) s =
     (if JStr (c_code c) \<noteq> code then (Inl MismatchError, s) else (Inr (), set_verified e s))"
proof -
  have "latest_code e (email_codes s) = Some (c_code c)"
    using assms(6-8) by (rule latest_code_most_recent)
  then show ?thesis
    by (simp add: verify_email_dict [OF assms(1-5)])
qed


lemma set_verified_email_codes:
  "set_verified e (s\<lparr>email_codes := cs\<rparr>) = (set_verified e s)\<lparr>email_codes := cs\<rparr>"
  by (simp add: set_verified_def)

lemma verify_email_created_at:
  assumes "map_of kvs ''email'' = Some email" and "map_of kvs ''code'' = Some code"
    and "truthy email" and "truthy code"
    and "sql_param (compare_text a) email = Inr (Some e)"
  shows "verify_email a (JObj kvs)
          (s\<lparr>email_codes := map (\<lambda>c. c\<lparr>c_created_at := t c\<rparr>) (email_codes s)\<rparr>)
      = (fst (verify_email a (JObj kvs) s),
         (snd (verify_email a (JObj kvs) s))
           \<lparr>email_codes := map (\<lambda>c. c\<lparr>c_created_at := t c\<rparr>) (email_codes s)\<rparr>)"
proof (cases "latest_code e (email_codes s)")
  case None
  then show ?thesis
    by (simp add: verify_email_dict [OF assms] latest_code_created_at)
next
  case (Some stored)
  then show ?thesis
    by (simp add: verify_email_dict [OF assms] latest_code_created_at set_verified_email_codes)
qed


lemma mark_verified_flag:
  "u_email (mark_verified e u) = e \<Longrightarrow> u_verified (mark_verified e u)"
  by (simp add: mark_verified_def split: if_splits)

lemma users_set_verified:
  "users (set_verified e s)
     = map (mark_verified e) (users s)"
  by (simp add: set_verified_def)

lemma ex_conj_mono:
  "\<exists>x. P x \<and> Q x \<Longrightarrow> (\<And>x. Q x \<Longrightarrow> R x) \<Longrightarrow> \<exists>x. P x \<and> R x"
  by blast

text \<open>
  Issue, then Verify. A code that \<open>generate_email_code\<close> stores gets the greatest
  \<open>id\<close> of the table, when every \<open>id\<close> in it came from the sequence: it is the one
  that Verify reads, and after \<open>POST /register/email\<close> every other code for that
  email is answered with \<open>MismatchError\<close>.
\<close>

lemma str_nat_not_empty: "str_nat n \<noteq> []"
  by (subst str_nat.simps) simp

lemma str_nat_222222: "str_nat 222222 = ''222222''"
  by (simp add: str_nat.simps digit_char_def)

lemma insert_email_code_stored:
  assumes "sql_param (assign_text a) email = Inr (Some e)"
    and "sql_param (assign_text a) code = Inr (Some stored)"
  shows "insert_email_code a now email code s =
     (Inr (),
      s\<lparr>email_codes_id_seq := email_codes_id_seq s + 1,
        email_codes := email_codes s @
          [\<lparr>c_id = email_codes_id_seq s + 1, c_email = e, c_code = stored,
            c_created_at = now\<rparr>]\<rparr>)"
  using assms by (simp add: insert_email_code_def or_raise_Inr Let_def)

lemma generate_email_code_latest:
  assumes "sql_param (assign_text a) email = Inr (Some e)"
    and "sql_param (assign_text a) (JStr (str_nat draw)) = Inr (Some stored)"
    and inv: "\<forall>c \<in> set (email_codes s). c_id c \<le> email_codes_id_seq s"
  shows "\<exists>s'. generate_email_code a now draw email s = (Inr (str_nat draw), s')
            \<and> latest_code e (email_codes s') = Some stored
            \<and> users s' = users s \<and> reservations s' = reservations s
            \<and> (\<forall>c \<in> set (email_codes s'). c_id c \<le> email_codes_id_seq s')"
proof -
  define c where "c = \<lparr>c_id = email_codes_id_seq s + 1, c_email = e, c_code = stored,
            c_created_at = now\<rparr>"
  define s' where "s' = s\<lparr>email_codes_id_seq := email_codes_id_seq s + 1,
        email_codes := email_codes s @ [c]\<rparr>"
  have run: "generate_email_code a now draw email s = (Inr (str_nat draw), s')"
    using assms(1,2)
    by (simp add: generate_email_code_def insert_email_code_stored s'_def c_def)
  have codes: "email_codes s' = email_codes s @ [c]"
    and seq: "email_codes_id_seq s' = email_codes_id_seq s + 1"
    and others: "users s' = users s" "reservations s' = reservations s"
    by (simp_all add: s'_def)
  have older: "c_id c' < c_id c" if "c' \<in> set (email_codes s)" for c'
    using inv that by (auto simp: c_def)
  have "latest_code e (email_codes s') = Some (c_code c)"
  proof (rule latest_code_most_recent)
    show "c \<in> set (email_codes s')"
      by (simp add: codes)
    show "c_email c = e"
      by (simp add: c_def)
    show "\<forall>c' \<in> set (email_codes s'). c_email c' = e \<and> c' \<noteq> c \<longrightarrow> c_id c' < c_id c"
      using older by (auto simp: codes)
  qed
  then have latest: "latest_code e (email_codes s') = Some stored"
    by (simp add: c_def)
  have inv': "\<forall>c \<in> set (email_codes s'). c_id c \<le> email_codes_id_seq s'"
    using inv by (auto simp: codes seq c_def)
  from run latest others inv' show ?thesis
    by (intro exI[of _ s'] conjI)
qed


lemma register_email_then_verify:
  assumes "truthy email"
    and "sql_param (assign_text a) email = Inr (Some e)"
    and "sql_param (compare_text a) email = Inr (Some e)"
    and "sql_param (assign_text a) (JStr (str_nat draw)) = Inr (Some (str_nat draw))"
    and "\<forall>c \<in> set (email_codes s). c_id c \<le> email_codes_id_seq s"
  shows "\<exists>s'. register_email a now draw True (JObj [(''email'', email)]) s = (Inr (), s')
            \<and> verify_email a (JObj [(''email'', email), (''code'', JStr (str_nat draw))]) s'
                = (Inr (), set_verified e s')
            \<and> (\<forall>other. other \<noteq> [] \<and> other \<noteq> str_nat draw
                  \<longrightarrow> verify_email a (JObj [(''email'', email), (''code'', JStr other)]) s'
                      = (Inl MismatchError, s'))"
proof -
  from generate_email_code_latest [OF assms(2) assms(4) assms(5), of now]
  obtain s' where run: "generate_email_code a now draw email s = (Inr (str_nat draw), s')"
    and latest: "latest_code e (email_codes s') = Some (str_nat draw)"
    by blast
  have issued: "register_email a now draw True (JObj [(''email'', email)]) s = (Inr (), s')"
    using assms(1) by (simp add: register_email_def or_raise_Inr run)
  have verify: "verify_email a (JObj [(''email'', email), (''code'', JStr code)]) s' =
      (if str_nat draw \<noteq> code then (Inl MismatchError, s') else (Inr (), set_verified e s'))"
    if "code \<noteq> []" for code
  proof -
    have "verify_email a (JObj [(''email'', email), (''code'', JStr code)]) s' =
       (case latest_code e (email_codes s') of
          None \<Rightarrow> (Inl NotFoundError, s')
        | Some stored \<Rightarrow> if JStr stored \<noteq> JStr code then (Inl MismatchError, s')
                         else (Inr (), set_verified e s'))"
      using assms(1,3) that by (intro verify_email_dict) simp_all
    then show ?thesis
      by (simp add: latest)
  qed
  have match: "verify_email a (JObj [(''email'', email), (''code'', JStr (str_nat draw))]) s'
                = (Inr (), set_verified e s')"
    by (simp add: verify [OF str_nat_not_empty])
  have differ: "\<forall>other. other \<noteq> [] \<and> other \<noteq> str_nat draw
                  \<longrightarrow> verify_email a (JObj [(''email'', email), (''code'', JStr other)]) s'
                      = (Inl MismatchError, s')"
    by (auto simp: verify)
  from issued match differ show ?thesis
    by (intro exI[of _ s'] conjI)
qed

text \<open>The adapter of the examples on the values that occur in them.\<close>

lemma typed_date_2024_01_01: "typed_date (JStr ''2024-01-01'') = Some 20240101"
  by (simp add: typed_date_def iso_date_def digit_of_def)

lemmas typed_pg_simps =
  typed_pg_def typed_text_def typed_text_array_def typed_date_2024_01_01 sql_param_def


lemma db_three_active:
  "(\<Union>r \<in> {r \<in> set (reservations db_three).
                 r_branch r = ''B1'' \<and> r_date r = 20240101 \<and> r_status r \<noteq> ''cancelled''}.
           set (r_tables r)) = {''T1'', ''T2''}"
proof -
  have "{r \<in> set (reservations db_three).
                 r_branch r = ''B1'' \<and> r_date r = 20240101 \<and> r_status r \<noteq> ''cancelled''}
     = set (filter (\<lambda>r. r_branch r = ''B1'' \<and> r_date r = 20240101 \<and> r_status r \<noteq> ''cancelled'')
          (reservations db_three))"
    by simp
  also have "\<dots> = {booked 1 ''T1'' ''pending'', booked 2 ''T2'' ''confirmed''}"
    by (simp add: db_three_def booked_def)
  finally show ?thesis
    by (simp add: booked_def insert_commute)
qed

lemma ex_conj_first_two: "\<exists>x. P x \<and> Q x \<and> R x \<Longrightarrow> \<exists>x. P x \<and> Q x"
  by blast

lemma db_codes_latest:
  "\<forall>c' \<in> set (email_codes db_codes).
      c_email c' = ''a@x.com''
      \<and> c' \<noteq> \<lparr>c_id = 2, c_email = ''a@x.com'', c_code = ''222222'', c_created_at = 2\<rparr>
    \<longrightarrow> c_id c' < c_id \<lparr>c_id = 2, c_email = ''a@x.com'', c_code = ''222222'', c_created_at = 2\<rparr>"
  by (simp add: db_codes_def)

lemma db_codes_member:
  "\<lparr>c_id = 2, c_email = ''a@x.com'', c_code = ''222222'', c_created_at = 2\<rparr>
     \<in> set (email_codes db_codes)"
  "\<lparr>c_id = 1, c_email = ''a@x.com'', c_code = ''111111'', c_created_at = 1\<rparr>
     \<in> set (email_codes db_codes)"
  by (simp_all add: db_codes_def)

lemma verify_request_fields:
  "map_of (verify_request email code) ''email'' = Some (JStr email)"
  "map_of (verify_request email code) ''code'' = Some (JStr code)"
  by (simp_all add: verify_request_def)

lemmas claim_eval =
  claim_pending_def claim_insert_def insert_reservation_def or_raise_def session_get_def
  session_staged_def session_a_def draft_1_def draft_branch_only_def empty_db_def
  typed_pg_simps Let_def

lemma claim_created:
  "fst (claim_pending typed_pg 7 JNull (session_staged draft_1) empty_db) = Inr (Created 1)"
  by (simp add: claim_eval)

lemma claim_rejected:
  "fst (claim_pending typed_pg 7 JNull (session_staged draft_branch_only) empty_db)
     = Inl ValidationError"
  by (simp add: claim_eval)

lemma triple_collapse: "fst p = x \<Longrightarrow> p = (x, fst (snd p), snd (snd p))"
  by (cases p) auto


lemma save_pending_staged:
  "save_pending draft_1 session_a = (Inr (), session_staged draft_1)"
  by (simp add: save_pending_def draft_1_def session_staged_def)

section \<open>Create\<close>

text \<open>
  C1, amended. \<open>create_reservation\<close> tests \<open>k not in data\<close> and nothing else. For a
  body that is a dict with the five keys \<open>user_email\<close>, \<open>branch\<close>, \<open>date\<close>, \<open>tables\<close>
  and \<open>guests\<close> whose values the store takes for their columns (and whose \<open>notes\<close> and
  \<open>menu_items\<close>, given or defaulted, it takes too), Create appends one row with the
  status \<open>pending\<close>, returns its identifier, changes no other table, and the row is in
  the answer of \<open>user_bookings\<close> for every session whose user has the owner's email;
  the identifier is new when all earlier ones came from the sequence. For a dict that
  lacks one of the five keys, Create answers \<open>ValidationError\<close> and the store is as
  before.
\<close>

theorem create_reservation_pending_listed:
  "(map_of kvs ''user_email'' = Some user_email \<and> map_of kvs ''branch'' = Some branch
      \<and> map_of kvs ''date'' = Some date \<and> map_of kvs ''tables'' = Some tables
      \<and> map_of kvs ''guests'' = Some guests
      \<and> sql_param (assign_text a) user_email = Inr (Some e)
      \<and> sql_param (assign_text a) branch = Inr (Some b)
      \<and> sql_param (assign_date a) date = Inr (Some d)
      \<and> sql_param (assign_text_array a) tables = Inr (Some ts)
      \<and> sql_param (assign_integer a) guests = Inr (Some g)
      \<and> sql_param (assign_text a)
            (case map_of kvs ''notes'' of None \<Rightarrow> JStr [] | Some v \<Rightarrow> v) = Inr n
      \<and> sql_param (assign_text_array a)
            (case map_of kvs ''menu_items'' of None \<Rightarrow> JArr [] | Some v \<Rightarrow> v) = Inr m
    \<longrightarrow> (\<exists>res_id s'.
           create_reservation a now (JObj kvs) s = (Inr res_id, s')
         \<and> reservations s' = reservations s @
              [\<lparr>r_id = res_id, r_user_email = e, r_branch = b, r_date = d, r_tables = ts,
                r_guests = g, r_notes = n, r_menu_items = m, r_status = ''pending'',
                r_created_at = now\<rparr>]
         \<and> users s' = users s \<and> email_codes s' = email_codes s
         \<and> ((\<forall>r \<in> set (reservations s). r_id r \<le> reservations_id_seq s)
              \<longrightarrow> res_id \<notin> r_id ` set (reservations s)
                \<and> (\<forall>r \<in> set (reservations s'). r_id r \<le> reservations_id_seq s'))
         \<and> (\<forall>sess u email.
                sess_user sess = Some (JObj u) \<and> u \<noteq> [] \<and> map_of u ''email'' = Some email
                \<and> sql_param (compare_text a) email = Inr (Some e)
              \<longrightarrow> (\<exists>bs. user_bookings a sess s' = Inr bs
                     \<and> (\<exists>bk \<in> set bs. b_id bk = res_id \<and> b_status bk = ''pending'')))))
   \<and> ((\<exists>k \<in> {''user_email'', ''branch'', ''date'', ''tables'', ''guests''}. map_of kvs k = None)
      \<longrightarrow> create_reservation a now (JObj kvs) s = (Inl ValidationError, s))"
proof (intro conjI impI)
  assume h: "map_of kvs ''user_email'' = Some user_email \<and> map_of kvs ''branch'' = Some branch
      \<and> map_of kvs ''date'' = Some date \<and> map_of kvs ''tables'' = Some tables
      \<and> map_of kvs ''guests'' = Some guests
      \<and> sql_param (assign_text a) user_email = Inr (Some e)
      \<and> sql_param (assign_text a) branch = Inr (Some b)
      \<and> sql_param (assign_date a) date = Inr (Some d)
      \<and> sql_param (assign_text_array a) tables = Inr (Some ts)
      \<and> sql_param (assign_integer a) guests = Inr (Some g)
      \<and> sql_param (assign_text a)
            (case map_of kvs ''notes'' of None \<Rightarrow> JStr [] | Some v \<Rightarrow> v) = Inr n
      \<and> sql_param (assign_text_array a)
            (case map_of kvs ''menu_items'' of None \<Rightarrow> JArr [] | Some v \<Rightarrow> v) = Inr m"
  define res_id where "res_id = reservations_id_seq s + 1"
  define row where "row = \<lparr>r_id = res_id, r_user_email = e, r_branch = b, r_date = d,
     r_tables = ts, r_guests = g, r_notes = n, r_menu_items = m, r_status = ''pending'',
     r_created_at = now\<rparr>"
  define s' where "s' = s\<lparr>reservations_id_seq := res_id, reservations := reservations s @ [row]\<rparr>"
  have run: "create_reservation a now (JObj kvs) s = (Inr res_id, s')"
    using h by (simp add: create_reservation_dict insert_reservation_stored
        res_id_def row_def s'_def)
  have rows: "reservations s' = reservations s @ [row]"
    and others: "users s' = users s" "email_codes s' = email_codes s"
    and seq: "reservations_id_seq s' = res_id"
    by (simp_all add: s'_def)
  have fresh: "res_id \<notin> r_id ` set (reservations s)
      \<and> (\<forall>r \<in> set (reservations s'). r_id r \<le> reservations_id_seq s')"
    if inv: "\<forall>r \<in> set (reservations s). r_id r \<le> reservations_id_seq s"
  proof
    show "res_id \<notin> r_id ` set (reservations s)"
      using inv by (auto simp: res_id_def)
    show "\<forall>r \<in> set (reservations s'). r_id r \<le> reservations_id_seq s'"
      using inv by (auto simp: rows seq row_def res_id_def)
  qed
  have listed: "\<exists>bs. user_bookings a sess s' = Inr bs
        \<and> (\<exists>bk \<in> set bs. b_id bk = res_id \<and> b_status bk = ''pending'')"
    if u: "sess_user sess = Some (JObj u) \<and> u \<noteq> [] \<and> map_of u ''email'' = Some email
                \<and> sql_param (compare_text a) email = Inr (Some e)"
    for sess u email
  proof -
    let ?bs = "map (booking_of a)
       (sort_key (\<lambda>r. - r_date r) (filter (\<lambda>r. r_user_email r = e) (reservations s')))"
    have "user_bookings a sess s' = Inr ?bs"
      using u by (simp add: user_bookings_owner)
    moreover have "booking_of a row \<in> set ?bs"
      by (simp add: rows row_def)
    moreover have "b_id (booking_of a row) = res_id" "b_status (booking_of a row) = ''pending''"
      by (simp_all add: booking_of_def row_def)
    ultimately show ?thesis by blast
  qed
  show "\<exists>res_id s'.
           create_reservation a now (JObj kvs) s = (Inr res_id, s')
         \<and> reservations s' = reservations s @
              [\<lparr>r_id = res_id, r_user_email = e, r_branch = b, r_date = d, r_tables = ts,
                r_guests = g, r_notes = n, r_menu_items = m, r_status = ''pending'',
                r_created_at = now\<rparr>]
         \<and> users s' = users s \<and> email_codes s' = email_codes s
         \<and> ((\<forall>r \<in> set (reservations s). r_id r \<le> reservations_id_seq s)
              \<longrightarrow> res_id \<notin> r_id ` set (reservations s)
                \<and> (\<forall>r \<in> set (reservations s'). r_id r \<le> reservations_id_seq s'))
         \<and> (\<forall>sess u email.
                sess_user sess = Some (JObj u) \<and> u \<noteq> [] \<and> map_of u ''email'' = Some email
                \<and> sql_param (compare_text a) email = Inr (Some e)
              \<longrightarrow> (\<exists>bs. user_bookings a sess s' = Inr bs
                     \<and> (\<exists>bk \<in> set bs. b_id bk = res_id \<and> b_status bk = ''pending'')))"
    using run rows others fresh listed unfolding row_def by blast
next
  assume "\<exists>k \<in> {''user_email'', ''branch'', ''date'', ''tables'', ''guests''}. map_of kvs k = None"
  then show "create_reservation a now (JObj kvs) s = (Inl ValidationError, s)"
    using create_reservation_missing by blast
qed


text \<open>The theorem at the request of the scenario, and at a request with \<open>branch\<close> only.\<close>

theorem create_reservation_pending_listed_witness:
  "(\<exists>res_id s'.
      create_reservation typed_pg 7 request_1 empty_db = (Inr res_id, s')
    \<and> map r_status (reservations s') = [''pending'']
    \<and> (\<exists>bs. user_bookings typed_pg session_a s' = Inr bs
           \<and> (\<exists>bk \<in> set bs. b_id bk = res_id \<and> b_status bk = ''pending'')))
   \<and> create_reservation typed_pg 7 (JObj [(''branch'', JStr ''B1'')]) empty_db
        = (Inl ValidationError, empty_db)"
proof
  have missing: "\<exists>k \<in> {''user_email'', ''branch'', ''date'', ''tables'', ''guests''}.
      map_of [(''branch'', JStr ''B1'')] k = None"
    by simp
  show "create_reservation typed_pg 7 (JObj [(''branch'', JStr ''B1'')]) empty_db
        = (Inl ValidationError, empty_db)"
    by (rule create_reservation_pending_listed
      [where kvs = "[(''branch'', JStr ''B1'')]" and a = typed_pg and now = 7 and s = empty_db,
       THEN conjunct2, rule_format, OF missing])
next
  let ?kvs = "[(''user_email'', JStr ''a@x.com''), (''branch'', JStr ''B1''),
           (''date'', JStr ''2024-01-01''), (''tables'', JArr [JStr ''T1'']),
           (''guests'', JInt 2)]"
  have given: "map_of ?kvs ''user_email'' = Some (JStr ''a@x.com'')
      \<and> map_of ?kvs ''branch'' = Some (JStr ''B1'')
      \<and> map_of ?kvs ''date'' = Some (JStr ''2024-01-01'')
      \<and> map_of ?kvs ''tables'' = Some (JArr [JStr ''T1''])
      \<and> map_of ?kvs ''guests'' = Some (JInt 2)
      \<and> sql_param (assign_text typed_pg) (JStr ''a@x.com'') = Inr (Some ''a@x.com'')
      \<and> sql_param (assign_text typed_pg) (JStr ''B1'') = Inr (Some ''B1'')
      \<and> sql_param (assign_date typed_pg) (JStr ''2024-01-01'') = Inr (Some 20240101)
      \<and> sql_param (assign_text_array typed_pg) (JArr [JStr ''T1'']) = Inr (Some [''T1''])
      \<and> sql_param (assign_integer typed_pg) (JInt 2) = Inr (Some 2)
      \<and> sql_param (assign_text typed_pg)
            (case map_of ?kvs ''notes'' of None \<Rightarrow> JStr [] | Some v \<Rightarrow> v) = Inr (Some [])
      \<and> sql_param (assign_text_array typed_pg)
            (case map_of ?kvs ''menu_items'' of None \<Rightarrow> JArr [] | Some v \<Rightarrow> v) = Inr (Some [])"
    by (simp add: typed_pg_simps)
  have owner: "sess_user session_a = Some (JObj [(''id'', JInt 1), (''name'', JStr ''A''),
                              (''email'', JStr ''a@x.com'')])
      \<and> [(''id'', JInt 1), (''name'', JStr ''A''), (''email'', JStr ''a@x.com'')] \<noteq> []
      \<and> map_of [(''id'', JInt 1), (''name'', JStr ''A''), (''email'', JStr ''a@x.com'')] ''email''
          = Some (JStr ''a@x.com'')
      \<and> sql_param (compare_text typed_pg) (JStr ''a@x.com'') = Inr (Some ''a@x.com'')"
    by (simp add: session_a_def typed_pg_simps)
  from create_reservation_pending_listed
      [where kvs = ?kvs and a = typed_pg and now = 7 and s = empty_db, THEN conjunct1,
       rule_format, OF given]
  obtain res_id s' where
    run: "create_reservation typed_pg 7 (JObj ?kvs) empty_db = (Inr res_id, s')"
    and rows: "reservations s' = reservations empty_db @
              [\<lparr>r_id = res_id, r_user_email = ''a@x.com'', r_branch = ''B1'', r_date = 20240101,
                r_tables = [''T1''], r_guests = 2, r_notes = Some [], r_menu_items = Some [],
                r_status = ''pending'', r_created_at = 7\<rparr>]"
    and listed: "\<forall>sess u email.
                sess_user sess = Some (JObj u) \<and> u \<noteq> [] \<and> map_of u ''email'' = Some email
                \<and> sql_param (compare_text typed_pg) email = Inr (Some ''a@x.com'')
              \<longrightarrow> (\<exists>bs. user_bookings typed_pg sess s' = Inr bs
                     \<and> (\<exists>bk \<in> set bs. b_id bk = res_id \<and> b_status bk = ''pending''))"
    by blast
  have "map r_status (reservations s') = [''pending'']"
    by (simp add: rows empty_db_def)
  moreover have "\<exists>bs. user_bookings typed_pg session_a s' = Inr bs
           \<and> (\<exists>bk \<in> set bs. b_id bk = res_id \<and> b_status bk = ''pending'')"
    using listed owner by blast
  ultimately show "\<exists>res_id s'.
      create_reservation typed_pg 7 request_1 empty_db = (Inr res_id, s')
    \<and> map r_status (reservations s') = [''pending'']
    \<and> (\<exists>bs. user_bookings typed_pg session_a s' = Inr bs
           \<and> (\<exists>bk \<in> set bs. b_id bk = res_id \<and> b_status bk = ''pending''))"
    unfolding request_1_def run by simp
qed

text \<open>
  C1 as stated fails: a request that has all five fields, with \<open>null\<close> for the owner
  email, passes the test of the fields, and the \<open>INSERT\<close> violates \<open>NOT NULL\<close>. Create
  neither inserts nor answers \<open>ValidationError\<close>.
\<close>

theorem create_reservation_null_email_counterexample:
  "any_missing [''user_email'', ''branch'', ''date'', ''tables'', ''guests''] request_null_email
     = Inr False
   \<and> fst (create_reservation typed_pg 7 request_null_email empty_db) = Inl InternalError
   \<and> reservations (snd (create_reservation typed_pg 7 request_null_email empty_db))
       = reservations empty_db"
  by (simp add: request_null_email_def create_reservation_def or_raise_def
      insert_reservation_def typed_pg_simps empty_db_def)

section \<open>Occupancy\<close>

text \<open>
  C3. Given a branch and a date (both arguments present and not empty) that the store
  reads as the branch \<open>b'\<close> and the date \<open>d'\<close>, \<open>get_occupied\<close> answers with the tables
  of exactly the reservations of that branch and date whose status is not
  \<open>cancelled\<close>: as a set, their union. A table of a \<open>pending\<close> or \<open>confirmed\<close>
  reservation is in the answer; a table that only \<open>cancelled\<close> reservations hold is
  not.
\<close>

theorem get_occupied_union:
  assumes "b \<noteq> []" and "d \<noteq> []"
    and "sql_param (compare_text a) (JStr b) = Inr (Some b')"
    and "sql_param (compare_date a) (JStr d) = Inr (Some d')"
  shows "\<exists>occupied.
      get_occupied a (Some b) (Some d) s = Inr occupied
    \<and> set occupied =
        (\<Union>r \<in> {r \<in> set (reservations s).
                 r_branch r = b' \<and> r_date r = d' \<and> r_status r \<noteq> ''cancelled''}.
           set (r_tables r))
    \<and> (\<forall>t. (\<exists>r \<in> set (reservations s). r_branch r = b' \<and> r_date r = d'
               \<and> t \<in> set (r_tables r)
               \<and> (r_status r = ''pending'' \<or> r_status r = ''confirmed''))
           \<longrightarrow> t \<in> set occupied)
    \<and> (\<forall>t. (\<forall>r \<in> set (reservations s). r_branch r = b' \<and> r_date r = d'
               \<and> t \<in> set (r_tables r) \<longrightarrow> r_status r = ''cancelled'')
           \<longrightarrow> t \<notin> set occupied)"
proof -
  let ?occ = "concat (map r_tables
            (filter (\<lambda>r. r_branch r = b' \<and> r_date r = d' \<and> r_status r \<noteq> ''cancelled'')
               (reservations s)))"
  have run: "get_occupied a (Some b) (Some d) s = Inr ?occ"
    using assms by (rule get_occupied_given)
  have union: "set ?occ =
        (\<Union>r \<in> {r \<in> set (reservations s).
                 r_branch r = b' \<and> r_date r = d' \<and> r_status r \<noteq> ''cancelled''}.
           set (r_tables r))"
    by auto
  have active: "t \<in> set ?occ"
    if "\<exists>r \<in> set (reservations s). r_branch r = b' \<and> r_date r = d'
               \<and> t \<in> set (r_tables r)
               \<and> (r_status r = ''pending'' \<or> r_status r = ''confirmed'')" for t
  proof -
    from that obtain r where r: "r \<in> set (reservations s)" "r_branch r = b'" "r_date r = d'"
      "t \<in> set (r_tables r)" "r_status r = ''pending'' \<or> r_status r = ''confirmed''"
      by auto
    then have "r_status r \<noteq> ''cancelled''"
      by auto
    with r show ?thesis
      unfolding union by auto
  qed
  have cancelled: "t \<notin> set ?occ"
    if "\<forall>r \<in> set (reservations s). r_branch r = b' \<and> r_date r = d'
               \<and> t \<in> set (r_tables r) \<longrightarrow> r_status r = ''cancelled''" for t
    using that unfolding union by auto
  show ?thesis
    using run union active cancelled by (intro exI[of _ ?occ] conjI allI impI)
qed

text \<open>The theorem at the store with a pending, a confirmed and a cancelled reservation:
  the tables of the first two are occupied.\<close>

theorem get_occupied_union_witness:
  "''B1'' \<noteq> [] \<and> ''2024-01-01'' \<noteq> []
   \<and> sql_param (compare_text typed_pg) (JStr ''B1'') = Inr (Some ''B1'')
   \<and> sql_param (compare_date typed_pg) (JStr ''2024-01-01'') = Inr (Some 20240101)
   \<and> (\<exists>occupied. get_occupied typed_pg (Some ''B1'') (Some ''2024-01-01'') db_three = Inr occupied
         \<and> set occupied = {''T1'', ''T2''})"
proof -
  have h: "''B1'' \<noteq> []" "''2024-01-01'' \<noteq> []"
    "sql_param (compare_text typed_pg) (JStr ''B1'') = Inr (Some ''B1'')"
    "sql_param (compare_date typed_pg) (JStr ''2024-01-01'') = Inr (Some 20240101)"
    by (simp_all add: typed_pg_simps)
  have "\<exists>occupied. get_occupied typed_pg (Some ''B1'') (Some ''2024-01-01'') db_three = Inr occupied
         \<and> set occupied = {''T1'', ''T2''}"
    using get_occupied_union [OF h, where s = db_three, THEN ex_conj_first_two]
    unfolding db_three_active .
  with h show ?thesis
    by (intro conjI)
qed

section \<open>Verify\<close>

text \<open>
  C4. A request with an email and a code (both given, the email read by the store as
  \<open>e\<close>): with no code record for \<open>e\<close>, Verify answers \<open>NotFoundError\<close>; when \<open>c\<close> is the
  most recent record for \<open>e\<close> (every other record for \<open>e\<close> has a smaller \<open>id\<close>), a
  submitted code that is not the string \<open>c_code c\<close> gets \<open>MismatchError\<close>, in
  particular the code of an older record that differs from it; the very string
  \<open>c_code c\<close> succeeds and sets the verified flag of the accounts of \<open>e\<close>, changing
  nothing else. In the first two cases the store is as before. No expiry: the
  answer does not depend on the \<open>created_at\<close> of the codes, whatever they are set to.
\<close>

theorem verify_email_most_recent_code:
  assumes "map_of kvs ''email'' = Some email" and "map_of kvs ''code'' = Some code"
    and "truthy email" and "truthy code"
    and "sql_param (compare_text a) email = Inr (Some e)"
  shows "((\<forall>c \<in> set (email_codes s). c_email c \<noteq> e)
            \<longrightarrow> verify_email a (JObj kvs) s = (Inl NotFoundError, s))
       \<and> (\<forall>c \<in> set (email_codes s).
             c_email c = e
             \<and> (\<forall>c' \<in> set (email_codes s). c_email c' = e \<and> c' \<noteq> c \<longrightarrow> c_id c' < c_id c)
           \<longrightarrow> (code \<noteq> JStr (c_code c)
                   \<longrightarrow> verify_email a (JObj kvs) s = (Inl MismatchError, s))
               \<and> (\<forall>old \<in> set (email_codes s).
                     c_email old = e \<and> c_id old < c_id c \<and> c_code old \<noteq> c_code c
                     \<and> code = JStr (c_code old)
                   \<longrightarrow> verify_email a (JObj kvs) s = (Inl MismatchError, s))
               \<and> (code = JStr (c_code c)
                   \<longrightarrow> (\<exists>s'. verify_email a (JObj kvs) s = (Inr (), s')
                          \<and> users s' = map (mark_verified e) (users s)
                          \<and> s' = s\<lparr>users := users s'\<rparr>
                          \<and> (\<forall>u \<in> set (users s'). u_email u = e \<longrightarrow> u_verified u))))
       \<and> (\<forall>t. verify_email a (JObj kvs)
                 (s\<lparr>email_codes := map (\<lambda>c. c\<lparr>c_created_at := t c\<rparr>) (email_codes s)\<rparr>)
               = (fst (verify_email a (JObj kvs) s),
                  (snd (verify_email a (JObj kvs) s))
                    \<lparr>email_codes := map (\<lambda>c. c\<lparr>c_created_at := t c\<rparr>) (email_codes s)\<rparr>))"
    (is "?none \<and> ?latest \<and> ?timeless")
proof -
  have none: ?none
    by (intro impI) (rule verify_email_not_found [OF assms])
  have timeless: ?timeless
    by (intro allI) (rule verify_email_created_at [OF assms])
  have latest: ?latest
  proof (intro ballI impI)
    fix c
    assume c: "c \<in> set (email_codes s)"
      and h: "c_email c = e
         \<and> (\<forall>c' \<in> set (email_codes s). c_email c' = e \<and> c' \<noteq> c \<longrightarrow> c_id c' < c_id c)"
    have run: "verify_email a (JObj kvs) s =
        (if JStr (c_code c) \<noteq> code then (Inl MismatchError, s) else (Inr (), set_verified e s))"
      using c h [THEN conjunct1] h [THEN conjunct2] by (rule verify_email_latest [OF assms])
    have differs: "verify_email a (JObj kvs) s = (Inl MismatchError, s)"
      if "code \<noteq> JStr (c_code c)"
      using that by (simp add: run eq_commute [of code])
    have older: "verify_email a (JObj kvs) s = (Inl MismatchError, s)"
      if "c_email old = e \<and> c_id old < c_id c \<and> c_code old \<noteq> c_code c
           \<and> code = JStr (c_code old)" for old :: email_code
    proof -
      from that have "code \<noteq> JStr (c_code c)"
        by simp
      then show ?thesis
        by (rule differs)
    qed
    have match: "\<exists>s'. verify_email a (JObj kvs) s = (Inr (), s')
          \<and> users s' = map (mark_verified e) (users s)
          \<and> s' = s\<lparr>users := users s'\<rparr>
          \<and> (\<forall>u \<in> set (users s'). u_email u = e \<longrightarrow> u_verified u)"
      if "code = JStr (c_code c)"
    proof (intro exI[of _ "set_verified e s"] conjI)
      show "verify_email a (JObj kvs) s = (Inr (), set_verified e s)"
        using that by (simp add: run)
      show "users (set_verified e s)
          = map (mark_verified e) (users s)"
        by (rule users_set_verified)
      show "set_verified e s = s\<lparr>users := users (set_verified e s)\<rparr>"
        by (simp add: set_verified_def)
      show "\<forall>u \<in> set (users (set_verified e s)). u_email u = e \<longrightarrow> u_verified u"
      proof (intro ballI impI)
        fix u
        assume "u \<in> set (users (set_verified e s))" and e: "u_email u = e"
        then have "u \<in> mark_verified e ` set (users s)"
          by (simp only: users_set_verified set_map)
        then obtain u0 where u: "u = mark_verified e u0"
          by (rule imageE)
        show "u_verified u"
          using e unfolding u by (rule mark_verified_flag)
      qed
    qed
    show "(code \<noteq> JStr (c_code c)
                   \<longrightarrow> verify_email a (JObj kvs) s = (Inl MismatchError, s))
               \<and> (\<forall>old \<in> set (email_codes s).
                     c_email old = e \<and> c_id old < c_id c \<and> c_code old \<noteq> c_code c
                     \<and> code = JStr (c_code old)
                   \<longrightarrow> verify_email a (JObj kvs) s = (Inl MismatchError, s))
               \<and> (code = JStr (c_code c)
                   \<longrightarrow> (\<exists>s'. verify_email a (JObj kvs) s = (Inr (), s')
                          \<and> users s' = map (mark_verified e) (users s)
                          \<and> s' = s\<lparr>users := users s'\<rparr>
                          \<and> (\<forall>u \<in> set (users s'). u_email u = e \<longrightarrow> u_verified u)))"
      using differs older match by (intro conjI impI ballI)
  qed
  from none latest timeless show ?thesis
    by (intro conjI)
qed

text \<open>
  The theorem at the store with the codes \<open>111111\<close> and \<open>222222\<close> for one email: an
  email without codes, a code never issued, the superseded code, the current code.
\<close>

theorem verify_email_most_recent_code_witness:
  "verify_email typed_pg (JObj (verify_request ''b@x.com'' ''222222'')) db_codes
     = (Inl NotFoundError, db_codes)
   \<and> verify_email typed_pg (JObj (verify_request ''a@x.com'' ''222223'')) db_codes
     = (Inl MismatchError, db_codes)
   \<and> verify_email typed_pg (JObj (verify_request ''a@x.com'' ''111111'')) db_codes
     = (Inl MismatchError, db_codes)
   \<and> (\<exists>s'. verify_email typed_pg (JObj (verify_request ''a@x.com'' ''222222'')) db_codes
              = (Inr (), s')
          \<and> map u_verified (users s') = [True])"
proof -
  let ?c1 = "\<lparr>c_id = 1, c_email = ''a@x.com'', c_code = ''111111'', c_created_at = 1\<rparr>"
  let ?c2 = "\<lparr>c_id = 2, c_email = ''a@x.com'', c_code = ''222222'', c_created_at = 2\<rparr>"
  have tr: "truthy (JStr ''a@x.com'')" "truthy (JStr ''b@x.com'')" "truthy (JStr ''111111'')"
      "truthy (JStr ''222222'')" "truthy (JStr ''222223'')"
    by simp_all
  have rd: "sql_param (compare_text typed_pg) (JStr ''a@x.com'') = Inr (Some ''a@x.com'')"
      "sql_param (compare_text typed_pg) (JStr ''b@x.com'') = Inr (Some ''b@x.com'')"
    by (simp_all add: typed_pg_simps)
  have latest: "c_email ?c2 = ''a@x.com''
      \<and> (\<forall>c' \<in> set (email_codes db_codes).
            c_email c' = ''a@x.com'' \<and> c' \<noteq> ?c2 \<longrightarrow> c_id c' < c_id ?c2)"
    using db_codes_latest by simp
  have none: "\<forall>c \<in> set (email_codes db_codes). c_email c \<noteq> ''b@x.com''"
    by (simp add: db_codes_def)
  have not_found: "verify_email typed_pg (JObj (verify_request ''b@x.com'' ''222222'')) db_codes
     = (Inl NotFoundError, db_codes)"
    by (rule verify_email_most_recent_code
          [OF verify_request_fields tr(2) tr(4) rd(2), where s = db_codes,
           THEN conjunct1, THEN mp, OF none])
  have wrong: "verify_email typed_pg (JObj (verify_request ''a@x.com'' ''222223'')) db_codes
     = (Inl MismatchError, db_codes)"
    by (rule verify_email_most_recent_code
          [OF verify_request_fields tr(1) tr(5) rd(1), where s = db_codes,
           THEN conjunct2, THEN conjunct1, THEN bspec, OF db_codes_member(1),
           THEN mp, OF latest, THEN conjunct1, THEN mp]) simp
  have older: "verify_email typed_pg (JObj (verify_request ''a@x.com'' ''111111'')) db_codes
     = (Inl MismatchError, db_codes)"
    by (rule verify_email_most_recent_code
          [OF verify_request_fields tr(1) tr(3) rd(1), where s = db_codes,
           THEN conjunct2, THEN conjunct1, THEN bspec, OF db_codes_member(1),
           THEN mp, OF latest, THEN conjunct2, THEN conjunct1, THEN bspec,
           OF db_codes_member(2), THEN mp]) simp
  have "\<exists>s'. verify_email typed_pg (JObj (verify_request ''a@x.com'' ''222222'')) db_codes
              = (Inr (), s')
          \<and> users s' = map (mark_verified ''a@x.com'') (users db_codes)
          \<and> s' = db_codes\<lparr>users := users s'\<rparr>
          \<and> (\<forall>u \<in> set (users s'). u_email u = ''a@x.com'' \<longrightarrow> u_verified u)"
    by (rule verify_email_most_recent_code
          [OF verify_request_fields tr(1) tr(4) rd(1), where s = db_codes,
           THEN conjunct2, THEN conjunct1, THEN bspec, OF db_codes_member(1),
           THEN mp, OF latest, THEN conjunct2, THEN conjunct2, THEN mp]) simp
  then have match: "\<exists>s'. verify_email typed_pg (JObj (verify_request ''a@x.com'' ''222222'')) db_codes
              = (Inr (), s')
          \<and> map u_verified (users s') = [True]"
    by (rule ex_conj_mono) (simp add: db_codes_def mark_verified_def)
  from not_found wrong older match show ?thesis
    by (intro conjI)
qed

text \<open>
  C10. When the submitted code is the most recent one issued for the email and no
  account has that email, Verify succeeds all the same: the \<open>UPDATE\<close> selects no row,
  and the store after it, accounts included, is the store before.
\<close>

theorem verify_email_without_account:
  assumes "map_of kvs ''email'' = Some email" and "map_of kvs ''code'' = Some code"
    and "truthy email" and "truthy code"
    and "sql_param (compare_text a) email = Inr (Some e)"
    and "c \<in> set (email_codes s)" and "c_email c = e"
    and "\<forall>c' \<in> set (email_codes s). c_email c' = e \<and> c' \<noteq> c \<longrightarrow> c_id c' < c_id c"
    and "code = JStr (c_code c)"
    and "\<forall>u \<in> set (users s). u_email u \<noteq> e"
  shows "verify_email a (JObj kvs) s = (Inr (), s)"
proof -
  have "map (mark_verified e) (users s) = users s"
    using assms(10) by (intro map_idI) (simp add: mark_verified_def)
  then have "set_verified e s = s"
    by (simp add: set_verified_def)
  then show ?thesis
    using assms(9) by (simp add: verify_email_latest [OF assms(1-8)])
qed


text \<open>The theorem at the store of the two codes with the accounts removed.\<close>

theorem verify_email_without_account_witness:
  "users (db_codes\<lparr>users := []\<rparr>) = []
   \<and> verify_email typed_pg (JObj (verify_request ''a@x.com'' ''222222''))
        (db_codes\<lparr>users := []\<rparr>)
      = (Inr (), db_codes\<lparr>users := []\<rparr>)"
proof -
  let ?c2 = "\<lparr>c_id = 2, c_email = ''a@x.com'', c_code = ''222222'', c_created_at = 2\<rparr>"
  have given: "truthy (JStr ''a@x.com'')" "truthy (JStr ''222222'')"
      "sql_param (compare_text typed_pg) (JStr ''a@x.com'') = Inr (Some ''a@x.com'')"
    by (simp_all add: typed_pg_simps)
  have code: "?c2 \<in> set (email_codes (db_codes\<lparr>users := []\<rparr>))"
      "c_email ?c2 = ''a@x.com''"
      "\<forall>c' \<in> set (email_codes (db_codes\<lparr>users := []\<rparr>)).
          c_email c' = ''a@x.com'' \<and> c' \<noteq> ?c2 \<longrightarrow> c_id c' < c_id ?c2"
      "JStr ''222222'' = JStr (c_code ?c2)"
    using db_codes_member(1) db_codes_latest by simp_all
  have nobody: "\<forall>u \<in> set (users (db_codes\<lparr>users := []\<rparr>)). u_email u \<noteq> ''a@x.com''"
    by simp
  have "verify_email typed_pg (JObj (verify_request ''a@x.com'' ''222222''))
        (db_codes\<lparr>users := []\<rparr>)
      = (Inr (), db_codes\<lparr>users := []\<rparr>)"
    by (rule verify_email_without_account [OF verify_request_fields given code nobody])
  moreover have "users (db_codes\<lparr>users := []\<rparr>) = []"
    by simp
  ultimately show ?thesis
    by (intro conjI)
qed

section \<open>Confirm and Cancel\<close>




text \<open>
  C2, amended. Confirm and Cancel look at no status: for an identifier that is given
  and present in the store, Confirm succeeds and writes \<open>confirmed\<close> into every
  reservation of that identifier, Cancel succeeds and writes \<open>cancelled\<close>, whatever the
  status was, and both leave every other reservation (and every other column) as it
  is. So \<open>confirmed\<close> stays under Confirm and \<open>cancelled\<close> stays under Cancel, and
  neither operation gives \<open>pending\<close> back.
\<close>

theorem confirm_cancel_overwrite_status:
  assumes "truthy res_id"
    and "sql_param (compare_integer a) res_id = Inr (Some n)"
    and "n \<in> r_id ` set (reservations s)"
    and "map_of kvs ''reservation_id'' = Some res_id"
    and "map_of kvs' ''id'' = Some res_id"
  shows "\<exists>confirmed cancelled.
      confirm_reservation a (JObj kvs) s = (Inr res_id, s\<lparr>reservations := confirmed\<rparr>)
    \<and> cancel_reservation a (JObj kvs') s = (Inr (), s\<lparr>reservations := cancelled\<rparr>)
    \<and> length confirmed = length (reservations s)
    \<and> length cancelled = length (reservations s)
    \<and> (\<forall>i < length (reservations s).
          (r_id (reservations s ! i) = n
             \<longrightarrow> confirmed ! i = (reservations s ! i)\<lparr>r_status := ''confirmed''\<rparr>
               \<and> cancelled ! i = (reservations s ! i)\<lparr>r_status := ''cancelled''\<rparr>)
        \<and> (r_id (reservations s ! i) \<noteq> n
             \<longrightarrow> confirmed ! i = reservations s ! i \<and> cancelled ! i = reservations s ! i))"
proof -
  let ?confirmed = "map (set_status n ''confirmed'') (reservations s)"
  let ?cancelled = "map (set_status n ''cancelled'') (reservations s)"
  have "confirm_reservation a (JObj kvs) s = (Inr res_id, s\<lparr>reservations := ?confirmed\<rparr>)"
    using assms by (simp add: confirm_reservation_dict)
  moreover have "cancel_reservation a (JObj kvs') s = (Inr (), s\<lparr>reservations := ?cancelled\<rparr>)"
    using assms by (simp add: cancel_reservation_dict)
  moreover have "length ?confirmed = length (reservations s)"
    "length ?cancelled = length (reservations s)"
    by simp_all
  moreover have "\<forall>i < length (reservations s).
          (r_id (reservations s ! i) = n
             \<longrightarrow> ?confirmed ! i = (reservations s ! i)\<lparr>r_status := ''confirmed''\<rparr>
               \<and> ?cancelled ! i = (reservations s ! i)\<lparr>r_status := ''cancelled''\<rparr>)
        \<and> (r_id (reservations s ! i) \<noteq> n
             \<longrightarrow> ?confirmed ! i = reservations s ! i \<and> ?cancelled ! i = reservations s ! i)"
    by (simp add: set_status_def)
  ultimately show ?thesis
    by (intro exI[of _ ?confirmed] exI[of _ ?cancelled] conjI)
qed

text \<open>The theorem at the cancelled reservation 3 of the store of three reservations.\<close>

theorem confirm_cancel_overwrite_status_witness:
  "truthy (JInt 3)
   \<and> sql_param (compare_integer typed_pg) (JInt 3) = Inr (Some 3)
   \<and> 3 \<in> r_id ` set (reservations db_three)
   \<and> (\<exists>confirmed cancelled.
      confirm_reservation typed_pg (JObj [(''reservation_id'', JInt 3)]) db_three
        = (Inr (JInt 3), db_three\<lparr>reservations := confirmed\<rparr>)
    \<and> cancel_reservation typed_pg (JObj [(''id'', JInt 3)]) db_three
        = (Inr (), db_three\<lparr>reservations := cancelled\<rparr>)
    \<and> length confirmed = length (reservations db_three)
    \<and> length cancelled = length (reservations db_three)
    \<and> (\<forall>i < length (reservations db_three).
          (r_id (reservations db_three ! i) = 3
             \<longrightarrow> confirmed ! i = (reservations db_three ! i)\<lparr>r_status := ''confirmed''\<rparr>
               \<and> cancelled ! i = (reservations db_three ! i)\<lparr>r_status := ''cancelled''\<rparr>)
        \<and> (r_id (reservations db_three ! i) \<noteq> 3
             \<longrightarrow> confirmed ! i = reservations db_three ! i
               \<and> cancelled ! i = reservations db_three ! i)))"
proof -
  have h: "truthy (JInt 3)"
    "sql_param (compare_integer typed_pg) (JInt 3) = Inr (Some 3)"
    "3 \<in> r_id ` set (reservations db_three)"
    "map_of [(''reservation_id'', JInt 3)] ''reservation_id'' = Some (JInt 3)"
    "map_of [(''id'', JInt 3)] ''id'' = Some (JInt 3)"
    by (simp_all add: typed_pg_simps db_three_def booked_def)
  show ?thesis
    using h(1-3) confirm_cancel_overwrite_status [OF h] by (intro conjI)
qed

text \<open>
  C2 as stated fails: in the store of three reservations, Confirm on the cancelled
  reservation 3 makes it \<open>confirmed\<close>, and Cancel on the confirmed reservation 2 makes
  it \<open>cancelled\<close>.
\<close>

theorem confirm_after_cancelled_counterexample:
  "map r_status (reservations db_three) = [''pending'', ''confirmed'', ''cancelled'']
   \<and> map r_status (reservations (snd
        (confirm_reservation typed_pg (JObj [(''reservation_id'', JInt 3)]) db_three)))
       = [''pending'', ''confirmed'', ''confirmed'']
   \<and> map r_status (reservations (snd
        (cancel_reservation typed_pg (JObj [(''id'', JInt 2)]) db_three)))
       = [''pending'', ''cancelled'', ''cancelled'']"
  by (simp add: confirm_reservation_def cancel_reservation_def or_raise_def typed_pg_simps
      update_status_def set_status_def db_three_def booked_def)

text \<open>
  C8. For an identifier that is given and present in the store, Cancel succeeds, a
  second Cancel on the resulting store succeeds too and leaves that store as it is,
  and every reservation of the identifier has the status \<open>cancelled\<close> after the first
  call, hence after the second.
\<close>

theorem cancel_reservation_idempotent:
  assumes "map_of kvs ''id'' = Some res_id" and "truthy res_id"
    and "sql_param (compare_integer a) res_id = Inr (Some n)"
    and "n \<in> r_id ` set (reservations s)"
  shows "\<exists>s1. cancel_reservation a (JObj kvs) s = (Inr (), s1)
            \<and> cancel_reservation a (JObj kvs) s1 = (Inr (), s1)
            \<and> n \<in> r_id ` set (reservations s1)
            \<and> (\<forall>r \<in> set (reservations s1). r_id r = n \<longrightarrow> r_status r = ''cancelled'')"
proof -
  define s1 where "s1 = s\<lparr>reservations := map (set_status n ''cancelled'') (reservations s)\<rparr>"
  have rows1: "reservations s1 = map (set_status n ''cancelled'') (reservations s)"
    by (simp add: s1_def)
  have first: "cancel_reservation a (JObj kvs) s = (Inr (), s1)"
    using assms by (simp add: cancel_reservation_dict s1_def)
  have present: "n \<in> r_id ` set (reservations s1)"
    using assms(4) by (simp only: rows1 ids_map_set_status)
  have "map (set_status n ''cancelled'') (reservations s1) = reservations s1"
    by (simp add: rows1 set_status_twice)
  then have again: "s1\<lparr>reservations := map (set_status n ''cancelled'') (reservations s1)\<rparr> = s1"
    by simp
  have second: "cancel_reservation a (JObj kvs) s1 = (Inr (), s1)"
    using assms(1-3) present by (simp add: cancel_reservation_dict again)
  have cancelled: "\<forall>r \<in> set (reservations s1). r_id r = n \<longrightarrow> r_status r = ''cancelled''"
  proof (intro ballI impI)
    fix r assume "r \<in> set (reservations s1)" and n: "r_id r = n"
    then obtain r0 where r0: "r = set_status n ''cancelled'' r0"
      unfolding rows1 by auto
    with n have "r_id r0 = n"
      by (simp add: set_status_id)
    then show "r_status r = ''cancelled''"
      unfolding r0 by (rule set_status_selected)
  qed
  show ?thesis
    using first second present cancelled by (intro exI[of _ s1] conjI)
qed

text \<open>The theorem at the confirmed reservation 2 of the store of three reservations.\<close>

theorem cancel_reservation_idempotent_witness:
  "truthy (JInt 2)
   \<and> sql_param (compare_integer typed_pg) (JInt 2) = Inr (Some 2)
   \<and> 2 \<in> r_id ` set (reservations db_three)
   \<and> (\<exists>s1. cancel_reservation typed_pg (JObj [(''id'', JInt 2)]) db_three = (Inr (), s1)
            \<and> cancel_reservation typed_pg (JObj [(''id'', JInt 2)]) s1 = (Inr (), s1)
            \<and> 2 \<in> r_id ` set (reservations s1)
            \<and> (\<forall>r \<in> set (reservations s1). r_id r = 2 \<longrightarrow> r_status r = ''cancelled''))"
proof -
  have h: "map_of [(''id'', JInt 2)] ''id'' = Some (JInt 2)"
    "truthy (JInt 2)"
    "sql_param (compare_integer typed_pg) (JInt 2) = Inr (Some 2)"
    "2 \<in> r_id ` set (reservations db_three)"
    by (simp_all add: typed_pg_simps db_three_def booked_def)
  show ?thesis
    using h(2-4) cancel_reservation_idempotent [OF h] by (intro conjI)
qed

section \<open>Claim\<close>

text \<open>
  C6, amended. The only statement of \<open>claim_pending\<close> that touches the staged draft is
  the \<open>pop\<close> after the \<open>INSERT\<close>; every \<open>return\<close> before it leaves the session as it
  is. When Claim answers with the identifier of the reservation it created, the staged
  draft is gone from the session and the identity is still there; when it answers
  \<open>ValidationError\<close> or \<open>InternalError\<close>, the session after it is the session before,
  staged draft included.
\<close>

theorem claim_pending_staged_draft:
  assumes "claim_pending a now raw_body sess s = (res, sess', s')"
  shows "(\<forall>res_id. res = Inr (Created res_id)
            \<longrightarrow> sess_pending_booking sess' = None \<and> sess_user sess' = sess_user sess)
       \<and> (res = Inl ValidationError \<or> res = Inl InternalError \<longrightarrow> sess' = sess)"
  using assms
  by (auto simp: claim_pending_def Let_def or_raise_def claim_insert_def
      split: if_splits sum.splits prod.splits)

text \<open>The theorem at a session with a complete staged draft, which is claimed, and at a
  session whose staged draft has a branch only, which stays staged.\<close>

theorem claim_pending_staged_draft_witness:
  "fst (claim_pending typed_pg 7 JNull (session_staged draft_1) empty_db) = Inr (Created 1)
   \<and> sess_pending_booking
        (fst (snd (claim_pending typed_pg 7 JNull (session_staged draft_1) empty_db))) = None
   \<and> fst (claim_pending typed_pg 7 JNull (session_staged draft_branch_only) empty_db)
        = Inl ValidationError
   \<and> fst (snd (claim_pending typed_pg 7 JNull (session_staged draft_branch_only) empty_db))
        = session_staged draft_branch_only"
proof -
  have gone: "sess_pending_booking
        (fst (snd (claim_pending typed_pg 7 JNull (session_staged draft_1) empty_db))) = None"
    by (rule claim_pending_staged_draft
          [OF triple_collapse [OF claim_created], THEN conjunct1, THEN spec, THEN mp,
           OF refl, THEN conjunct1])
  have kept: "fst (snd (claim_pending typed_pg 7 JNull (session_staged draft_branch_only) empty_db))
        = session_staged draft_branch_only"
    by (rule claim_pending_staged_draft
          [OF triple_collapse [OF claim_rejected], THEN conjunct2, THEN mp, OF disjI1, OF refl])
  from claim_created gone claim_rejected kept show ?thesis
    by (intro conjI)
qed

text \<open>
  C6 as stated fails: \<open>save_pending\<close> stages a draft that lacks \<open>date\<close>, \<open>tables\<close>
  and \<open>guests\<close>; with an identity in the session, Claim answers \<open>ValidationError\<close>
  and the draft is still staged.
\<close>

theorem claim_pending_validation_failure_counterexample:
  "save_pending draft_branch_only session_a = (Inr (), session_staged draft_branch_only)
   \<and> sess_user (session_staged draft_branch_only) \<noteq> None
   \<and> sess_pending_booking (session_staged draft_branch_only) = Some draft_branch_only
   \<and> claim_pending typed_pg 7 JNull (session_staged draft_branch_only) empty_db
       = (Inl ValidationError, session_staged draft_branch_only, empty_db)"
  by (simp add: claim_eval save_pending_def)




section \<open>Create takes tables that are occupied\<close>

text \<open>
  C9. No statement of \<open>create_reservation\<close> reads the reservations. For every store and
  every request with the five fields in values that the store takes, Create succeeds;
  the tables it asked for are then in the answer of \<open>get_occupied\<close> for that branch and
  date; and the same request once more succeeds again, under another identifier, so
  that the store ends with two \<open>pending\<close> reservations of the same branch, date and
  tables after the rows it had.
\<close>

theorem create_reservation_no_free_table_check:
  assumes keys: "map_of kvs ''user_email'' = Some user_email"
      "map_of kvs ''branch'' = Some branch" "map_of kvs ''date'' = Some date"
      "map_of kvs ''tables'' = Some tables" "map_of kvs ''guests'' = Some guests"
    and stored: "sql_param (assign_text a) user_email = Inr (Some e)"
      "sql_param (assign_text a) branch = Inr (Some b)"
      "sql_param (assign_date a) date = Inr (Some d)"
      "sql_param (assign_text_array a) tables = Inr (Some ts)"
      "sql_param (assign_integer a) guests = Inr (Some g)"
      "sql_param (assign_text a)
         (case map_of kvs ''notes'' of None \<Rightarrow> JStr [] | Some v \<Rightarrow> v) = Inr n"
      "sql_param (assign_text_array a)
         (case map_of kvs ''menu_items'' of None \<Rightarrow> JArr [] | Some v \<Rightarrow> v) = Inr m"
  shows "\<exists>id1 s1 id2 s2.
      create_reservation a now (JObj kvs) s = (Inr id1, s1)
    \<and> (\<forall>qb qd. qb \<noteq> [] \<and> qd \<noteq> []
           \<and> sql_param (compare_text a) (JStr qb) = Inr (Some b)
           \<and> sql_param (compare_date a) (JStr qd) = Inr (Some d)
         \<longrightarrow> (\<exists>occupied. get_occupied a (Some qb) (Some qd) s1 = Inr occupied
                \<and> set ts \<subseteq> set occupied))
    \<and> create_reservation a now' (JObj kvs) s1 = (Inr id2, s2)
    \<and> id1 \<noteq> id2
    \<and> reservations s2 = reservations s @
         [\<lparr>r_id = id1, r_user_email = e, r_branch = b, r_date = d, r_tables = ts,
           r_guests = g, r_notes = n, r_menu_items = m, r_status = ''pending'',
           r_created_at = now\<rparr>,
          \<lparr>r_id = id2, r_user_email = e, r_branch = b, r_date = d, r_tables = ts,
           r_guests = g, r_notes = n, r_menu_items = m, r_status = ''pending'',
           r_created_at = now'\<rparr>]"
proof -
  define row where "row = (\<lambda>i t. \<lparr>r_id = i, r_user_email = e, r_branch = b, r_date = d,
     r_tables = ts, r_guests = g, r_notes = n, r_menu_items = m, r_status = ''pending'',
     r_created_at = t\<rparr>)"
  define id1 where "id1 = reservations_id_seq s + 1"
  define s1 where "s1 = s\<lparr>reservations_id_seq := id1,
     reservations := reservations s @ [row id1 now]\<rparr>"
  define id2 where "id2 = id1 + 1"
  define s2 where "s2 = s1\<lparr>reservations_id_seq := id2,
     reservations := reservations s1 @ [row id2 now']\<rparr>"
  have run: "create_reservation a t (JObj kvs) s0 =
      (Inr (reservations_id_seq s0 + 1),
       s0\<lparr>reservations_id_seq := reservations_id_seq s0 + 1,
          reservations := reservations s0 @ [row (reservations_id_seq s0 + 1) t]\<rparr>)" for t s0
    using keys stored
    by (simp add: create_reservation_dict insert_reservation_stored row_def)
  have first: "create_reservation a now (JObj kvs) s = (Inr id1, s1)"
    by (simp add: run id1_def s1_def)
  have second: "create_reservation a now' (JObj kvs) s1 = (Inr id2, s2)"
    by (simp add: run id2_def s2_def s1_def)
  have held: "\<exists>occupied. get_occupied a (Some qb) (Some qd) s1 = Inr occupied
         \<and> set ts \<subseteq> set occupied"
    if query: "qb \<noteq> [] \<and> qd \<noteq> []
           \<and> sql_param (compare_text a) (JStr qb) = Inr (Some b)
           \<and> sql_param (compare_date a) (JStr qd) = Inr (Some d)" for qb qd
  proof -
    let ?occupied = "concat (map r_tables
         (filter (\<lambda>r. r_branch r = b \<and> r_date r = d \<and> r_status r \<noteq> ''cancelled'')
            (reservations s1)))"
    have "get_occupied a (Some qb) (Some qd) s1 = Inr ?occupied"
      using query by (intro get_occupied_given) simp_all
    moreover have "set ts \<subseteq> set ?occupied"
      by (simp add: s1_def row_def)
    ultimately show ?thesis
      by (intro exI[of _ ?occupied] conjI)
  qed
  have rows: "reservations s2 = reservations s @ [row id1 now, row id2 now']"
    by (simp add: s2_def s1_def)
  have "id1 \<noteq> id2"
    by (simp add: id2_def)
  with first held second rows show ?thesis
    unfolding row_def by (intro exI[of _ id1] exI[of _ s1] exI[of _ id2] exI[of _ s2]
        conjI allI impI)
qed

text \<open>
  The theorem at the store of three reservations, where the table \<open>T1\<close> of the request
  is occupied before the first Create.
\<close>

theorem create_reservation_no_free_table_check_witness:
  "get_occupied typed_pg (Some ''B1'') (Some ''2024-01-01'') db_three = Inr [''T1'', ''T2'']
   \<and> (\<exists>id1 s1 id2 s2.
      create_reservation typed_pg 8 request_1 db_three = (Inr id1, s1)
    \<and> (\<forall>qb qd. qb \<noteq> [] \<and> qd \<noteq> []
           \<and> sql_param (compare_text typed_pg) (JStr qb) = Inr (Some ''B1'')
           \<and> sql_param (compare_date typed_pg) (JStr qd) = Inr (Some 20240101)
         \<longrightarrow> (\<exists>occupied. get_occupied typed_pg (Some qb) (Some qd) s1 = Inr occupied
                \<and> set [''T1''] \<subseteq> set occupied))
    \<and> create_reservation typed_pg 9 request_1 s1 = (Inr id2, s2)
    \<and> id1 \<noteq> id2
    \<and> reservations s2 = reservations db_three @
         [\<lparr>r_id = id1, r_user_email = ''a@x.com'', r_branch = ''B1'', r_date = 20240101,
           r_tables = [''T1''], r_guests = 2, r_notes = Some [], r_menu_items = Some [],
           r_status = ''pending'', r_created_at = 8\<rparr>,
          \<lparr>r_id = id2, r_user_email = ''a@x.com'', r_branch = ''B1'', r_date = 20240101,
           r_tables = [''T1''], r_guests = 2, r_notes = Some [], r_menu_items = Some [],
           r_status = ''pending'', r_created_at = 9\<rparr>])"
proof -
  let ?kvs = "[(''user_email'', JStr ''a@x.com''), (''branch'', JStr ''B1''),
           (''date'', JStr ''2024-01-01''), (''tables'', JArr [JStr ''T1'']),
           (''guests'', JInt 2)]"
  have h: "map_of ?kvs ''user_email'' = Some (JStr ''a@x.com'')"
      "map_of ?kvs ''branch'' = Some (JStr ''B1'')"
      "map_of ?kvs ''date'' = Some (JStr ''2024-01-01'')"
      "map_of ?kvs ''tables'' = Some (JArr [JStr ''T1''])"
      "map_of ?kvs ''guests'' = Some (JInt 2)"
      "sql_param (assign_text typed_pg) (JStr ''a@x.com'') = Inr (Some ''a@x.com'')"
      "sql_param (assign_text typed_pg) (JStr ''B1'') = Inr (Some ''B1'')"
      "sql_param (assign_date typed_pg) (JStr ''2024-01-01'') = Inr (Some 20240101)"
      "sql_param (assign_text_array typed_pg) (JArr [JStr ''T1'']) = Inr (Some [''T1''])"
      "sql_param (assign_integer typed_pg) (JInt 2) = Inr (Some 2)"
      "sql_param (assign_text typed_pg)
         (case map_of ?kvs ''notes'' of None \<Rightarrow> JStr [] | Some v \<Rightarrow> v) = Inr (Some [])"
      "sql_param (assign_text_array typed_pg)
         (case map_of ?kvs ''menu_items'' of None \<Rightarrow> JArr [] | Some v \<Rightarrow> v) = Inr (Some [])"
    by (simp_all add: typed_pg_simps)
  have q: "''B1'' \<noteq> []" "''2024-01-01'' \<noteq> []"
      "sql_param (compare_text typed_pg) (JStr ''B1'') = Inr (Some ''B1'')"
      "sql_param (compare_date typed_pg) (JStr ''2024-01-01'') = Inr (Some 20240101)"
    by (simp_all add: typed_pg_simps)
  have before: "get_occupied typed_pg (Some ''B1'') (Some ''2024-01-01'') db_three
      = Inr [''T1'', ''T2'']"
    by (simp add: get_occupied_given [OF q] db_three_def booked_def)
  show ?thesis
    using before
      create_reservation_no_free_table_check [OF h, where s = db_three and now = 8 and now' = 9]
    unfolding request_1_def by (intro conjI)
qed

end
